theory Spec2Isabelle
  imports Main
begin

section \<open>JavaScript values, property keys and the store\<close>

text \<open>
  The two source files, \<open>compat/object/has.ts\<close> and the file of \<open>invoke\<close>, walk
  arbitrary JavaScript values by property keys. The embedding keeps the fragment of
  JavaScript they touch:
  \<^item> a value is a primitive or a reference into a store of objects (so that two
    references can alias and a callee can write through them);
  \<^item> a number is an integer-valued double of magnitude below \<open>2^53\<close>, written as an
    \<open>int\<close>: for these, conversion to a string is the decimal notation and comparison is
    the comparison of integers. \<open>NaN\<close>, the infinities, \<open>-0\<close> and fractions are outside
    the embedding;
  \<^item> a symbol has an identity and a description;
  \<^item> an object has a kind (plain object, array, arguments object, function) and its own
    data properties, those a function object is born with (\<open>length\<close>, \<open>name\<close>) listed
    like the others. Arrays and arguments objects carry their \<open>length\<close>; a hole of a
    sparse array is an index below the length with no own property. Accessors, proxies
    and inherited properties are outside the embedding, but for \<open>Function.prototype.apply\<close>,
    which the read of \<open>apply\<close> finds on a function object that has no own \<open>apply\<close>.
\<close>

type_synonym addr = nat

datatype jssym = Symbol nat string

datatype jsval = Undefined | Null | Bool bool | Num int | Str string | Sym jssym | Ref addr

text \<open>\<open>PropertyKey\<close> of TypeScript: \<open>string | number | symbol\<close>.\<close>

datatype pkey = KStr string | KNum int | KSym jssym

text \<open>The name a property is stored under: a string or a symbol (the result of \<open>ToPropertyKey\<close>).\<close>

datatype propname = PName string | PSymbol jssym

datatype objkind = Plain | Array nat | Arguments nat | Function nat

record jsobj =
  kind :: objkind
  props :: "propname \<rightharpoonup> jsval"

type_synonym heap = "addr \<Rightarrow> jsobj"

text \<open>
  What a call can raise: the \<open>TypeError\<close> of the language (a property read on
  \<open>null\<close>/\<open>undefined\<close>, a call of a value that is no function), and whatever an
  invoked function throws.
\<close>

datatype error = TypeError | Thrown jsval

text \<open>The parameter \<open>path: PropertyKey | readonly PropertyKey[]\<close> of \<open>has\<close> and \<open>invoke\<close>.\<close>

datatype path = PKey pkey | PSeq "pkey list"

text \<open>
  An argument of a call: a value, or an array that the caller has just built and hands
  over as one argument, given by its elements (no other reference to it exists).
\<close>

datatype jsarg = Arg jsval | Fresh "jsval list"

text \<open>
  A function of the program under test: it receives its \<open>this\<close>, its arguments and the
  store, and returns or throws, leaving a store. The table of functions is a parameter of
  \<open>invoke\<close>; a function object names its entry.
\<close>

type_synonym jsfun = "jsval \<Rightarrow> jsarg list \<Rightarrow> heap \<Rightarrow> (error + jsval) \<times> heap"

subsection \<open>Numbers and strings\<close>

fun show_nat :: "nat \<Rightarrow> string" where
  "show_nat n =
     (if n < 10 then [''0123456789'' ! n]
      else show_nat (n div 10) @ [''0123456789'' ! (n mod 10)])"

declare show_nat.simps [simp del]

text \<open>\<open>String(n)\<close> for an integer-valued number.\<close>

definition show_int :: "int \<Rightarrow> string" where
  "show_int i = (if i < 0 then CHR ''-'' # show_nat (nat (- i)) else show_nat (nat i))"

definition is_digit :: "char \<Rightarrow> bool" where
  "is_digit c = (c \<in> set ''0123456789'')"

definition digit_val :: "char \<Rightarrow> nat" where
  "digit_val c = of_char c - 48"

text \<open>\<open>ToNumber\<close> of a string of decimal digits.\<close>

definition nat_of_digits :: "string \<Rightarrow> nat" where
  "nat_of_digits s = foldl (\<lambda>acc c. 10 * acc + digit_val c) 0 s"

text \<open>The regular expression \<open>/^(?:0|[1-9]\d*)$/\<close>: no sign, no leading zero, no fraction.\<close>

definition unsigned_integer_string :: "string \<Rightarrow> bool" where
  "unsigned_integer_string s =
     (s = ''0'' \<or> (s \<noteq> [] \<and> hd s \<in> set ''123456789'' \<and> list_all is_digit s))"

subsection \<open>Reading a value\<close>

text \<open>\<open>x == null\<close>.\<close>

definition is_nullish :: "jsval \<Rightarrow> bool" where
  "is_nullish v = (v = Undefined \<or> v = Null)"

fun toPropertyKey :: "pkey \<Rightarrow> propname" where
  "toPropertyKey (KStr s) = PName s"
| "toPropertyKey (KNum n) = PName (show_int n)"
| "toPropertyKey (KSym y) = PSymbol y"

definition lookup :: "jsobj \<Rightarrow> propname \<Rightarrow> jsval" where
  "lookup ob name = (case props ob name of None \<Rightarrow> Undefined | Some v \<Rightarrow> v)"

text \<open>Own properties of an object: arrays and arguments objects own their \<open>length\<close>.\<close>

definition obj_own :: "jsobj \<Rightarrow> propname \<Rightarrow> bool" where
  "obj_own ob name =
     (case kind ob of
        Array n \<Rightarrow> name = PName ''length'' \<or> props ob name \<noteq> None
      | Arguments n \<Rightarrow> name = PName ''length'' \<or> props ob name \<noteq> None
      | _ \<Rightarrow> props ob name \<noteq> None)"

definition obj_get :: "jsobj \<Rightarrow> propname \<Rightarrow> jsval" where
  "obj_get ob name =
     (case kind ob of
        Array n \<Rightarrow> if name = PName ''length'' then Num (int n) else lookup ob name
      | Arguments n \<Rightarrow> if name = PName ''length'' then Num (int n) else lookup ob name
      | _ \<Rightarrow> lookup ob name)"

text \<open>Own properties of a string primitive: its \<open>length\<close> and its indices.\<close>

fun str_own :: "string \<Rightarrow> propname \<Rightarrow> bool" where
  "str_own s (PName p) =
     (p = ''length'' \<or> (unsigned_integer_string p \<and> nat_of_digits p < length s))"
| "str_own s (PSymbol y) = False"

fun str_get :: "string \<Rightarrow> propname \<Rightarrow> jsval" where
  "str_get s (PName p) =
     (if p = ''length'' then Num (int (length s))
      else if unsigned_integer_string p \<and> nat_of_digits p < length s
      then Str [s ! nat_of_digits p]
      else Undefined)"
| "str_get s (PSymbol y) = Undefined"

text \<open>
  \<open>Object.hasOwn(v, key)\<close>: a \<open>TypeError\<close> on \<open>null\<close> and \<open>undefined\<close>; numbers, booleans
  and symbols own nothing.
\<close>

fun hasOwn :: "heap \<Rightarrow> jsval \<Rightarrow> pkey \<Rightarrow> error + bool" where
  "hasOwn h Undefined key = Inl TypeError"
| "hasOwn h Null key = Inl TypeError"
| "hasOwn h (Ref a) key = Inr (obj_own (h a) (toPropertyKey key))"
| "hasOwn h (Str s) key = Inr (str_own s (toPropertyKey key))"
| "hasOwn h v key = Inr False"

text \<open>The property read \<open>v[key]\<close>: a \<open>TypeError\<close> on \<open>null\<close> and \<open>undefined\<close>.\<close>

fun getProp :: "heap \<Rightarrow> jsval \<Rightarrow> pkey \<Rightarrow> error + jsval" where
  "getProp h Undefined key = Inl TypeError"
| "getProp h Null key = Inl TypeError"
| "getProp h (Ref a) key = Inr (obj_get (h a) (toPropertyKey key))"
| "getProp h (Str s) key = Inr (str_get s (toPropertyKey key))"
| "getProp h v key = Inr Undefined"

text \<open>The optional read \<open>v?.[key]\<close>.\<close>

definition opt_get :: "heap \<Rightarrow> jsval \<Rightarrow> pkey \<Rightarrow> error + jsval" where
  "opt_get h v key = (if is_nullish v then Inr Undefined else getProp h v key)"

text \<open>\<open>Array.isArray\<close>.\<close>

fun isArray :: "heap \<Rightarrow> jsval \<Rightarrow> bool" where
  "isArray h (Ref a) = (case kind (h a) of Array n \<Rightarrow> True | _ \<Rightarrow> False)"
| "isArray h v = False"

text \<open>\<open>current.length\<close> of an array or an arguments object.\<close>

fun length_of :: "heap \<Rightarrow> jsval \<Rightarrow> nat" where
  "length_of h (Ref a) = (case kind (h a) of Array n \<Rightarrow> n | Arguments n \<Rightarrow> n | _ \<Rightarrow> 0)"
| "length_of h v = 0"

text \<open>
  \<open>key < length\<close>, read where \<open>isIndex key\<close> holds: there a string key is a string of
  digits and compares by its number.
\<close>

fun key_lt :: "pkey \<Rightarrow> nat \<Rightarrow> bool" where
  "key_lt (KNum n) len = (n < int len)"
| "key_lt (KStr s) len = (nat_of_digits s < len)"
| "key_lt (KSym y) len = False"

text \<open>\<open>typeof v === 'object'\<close>.\<close>

fun typeof_is_object :: "heap \<Rightarrow> jsval \<Rightarrow> bool" where
  "typeof_is_object h Null = True"
| "typeof_is_object h (Ref a) = (case kind (h a) of Function f \<Rightarrow> False | _ \<Rightarrow> True)"
| "typeof_is_object h v = False"

text \<open>\<open>typeof v === 'function'\<close>.\<close>

fun is_function :: "heap \<Rightarrow> jsval \<Rightarrow> bool" where
  "is_function h (Ref a) = (case kind (h a) of Function f \<Rightarrow> True | _ \<Rightarrow> False)"
| "is_function h v = False"

section \<open>The collaborators that the two files import\<close>

text \<open>
  \<open>isIndex\<close>, \<open>isDeepKey\<close>, \<open>toPath\<close>, \<open>isArguments\<close>, \<open>toKey\<close>, \<open>last\<close> and \<open>get\<close>
  are imported by the two files and their sources are not among them. Each is modelled
  from its contract in the specification.
\<close>

text \<open>
  Modelled from the spec: \<open>isIndex\<close> (\<open>_internal/isIndex.ts\<close>) is missing. "Returns true
  iff key is a value that can serve as a non-negative integer array index: a number or
  numeric string with no sign, no leading zero (except the literal "0"), no fractional
  part, and within a safe integer range (conventionally \<open>< 2^53 - 1\<close>)."
\<close>

fun isIndex :: "pkey \<Rightarrow> bool" where
  "isIndex (KNum n) = (0 \<le> n \<and> n < 2 ^ 53 - 1)"
| "isIndex (KStr s) = (unsigned_integer_string s \<and> int (nat_of_digits s) < 2 ^ 53 - 1)"
| "isIndex (KSym y) = False"

text \<open>
  Modelled from the spec: \<open>isDeepKey\<close> (\<open>_internal/isDeepKey.ts\<close>) is missing. It "reports
  whether a string path contains path-delimiter syntax": a dot or a bracket.
\<close>

definition isDeepKey :: "string \<Rightarrow> bool" where
  "isDeepKey s = (CHR ''.'' \<in> set s \<or> CHR ''['' \<in> set s \<or> CHR '']'' \<in> set s)"

text \<open>
  Modelled from the spec: \<open>isArguments\<close> (\<open>predicate/isArguments.ts\<close>) is missing. "True
  iff value is an array-like arguments object (has numeric indices and a length, but is
  not a true sequence type)."
\<close>

fun isArguments :: "heap \<Rightarrow> jsval \<Rightarrow> bool" where
  "isArguments h (Ref a) = (case kind (h a) of Arguments n \<Rightarrow> True | _ \<Rightarrow> False)"
| "isArguments h v = False"

text \<open>
  Modelled from the spec: \<open>toPath\<close> (\<open>util/toPath.ts\<close>) is missing. The grammar of section
  4.2, read left to right:
  \<^item> a run of characters with no dot and no opening bracket is one string token; a
    backslash before a dot or a bracket makes that character part of the token;
  \<^item> an opening bracket starts a bracket segment, which the next closing bracket ends.
    Content between matching single or double quotes is the token, the quotes left out;
    other content is a numeric token when \<open>isIndex\<close> accepts it, a string token
    otherwise;
  \<^item> a dot separates segments; a leading dot and consecutive delimiters give no empty
    token;
  \<^item> a bracket left open ends with the string, its content the last token. Section 4.2
    has this case fail with a \<open>ParseError\<close>; \<open>has\<close> and \<open>invoke\<close> call \<open>toPath\<close>
    with no handler, and has.ts documents a boolean for every path, so the embedding
    keeps \<open>toPath\<close> total. It returns in the sum type of the reads, and never on the
    left.
\<close>

datatype mode = InPlain | InBracket

definition escaped :: "char \<Rightarrow> string \<Rightarrow> bool" where
  "escaped c cs = (c = CHR 0x5C \<and> cs \<noteq> [] \<and> hd cs \<in> set ''.[]'')"

definition plainToken :: "string \<Rightarrow> pkey list" where
  "plainToken key = (if key = [] then [] else [KStr key])"

definition quoted :: "string \<Rightarrow> bool" where
  "quoted s = (2 \<le> length s \<and> hd s = last s \<and> (hd s = CHR 0x27 \<or> hd s = CHR 0x22))"

definition bracketToken :: "string \<Rightarrow> pkey list" where
  "bracketToken key =
     (if key = [] then []
      else if quoted key then [KStr (butlast (tl key))]
      else if isIndex (KStr key) then [KNum (int (nat_of_digits key))]
      else [KStr key])"

fun scan :: "mode \<Rightarrow> string \<Rightarrow> pkey list \<Rightarrow> string \<Rightarrow> error + pkey list" where
  "scan InPlain key result [] = Inr (result @ plainToken key)"
| "scan InBracket key result [] = Inr (result @ bracketToken key)"
| "scan InPlain key result (c # cs) =
     (if escaped c cs then scan InPlain (key @ [hd cs]) result (tl cs)
      else if c = CHR ''.'' then scan InPlain [] (result @ plainToken key) cs
      else if c = CHR ''['' then scan InBracket [] (result @ plainToken key) cs
      else scan InPlain (key @ [c]) result cs)"
| "scan InBracket key result (c # cs) =
     (if c = CHR '']'' then scan InPlain [] (result @ bracketToken key) cs
      else scan InBracket (key @ [c]) result cs)"

definition toPath :: "string \<Rightarrow> error + pkey list" where
  "toPath deepKey = scan InPlain [] [] deepKey"

text \<open>
  Modelled from the spec: \<open>toKey\<close> (\<open>_internal/toKey.ts\<close>) is missing. It "canonicalizes a
  numeric value into its string property-key form".
\<close>

definition toKey :: "int \<Rightarrow> string" where
  "toKey n = show_int n"

text \<open>
  Modelled from the spec: \<open>last\<close> (\<open>array/last.ts\<close>) is missing. It "returns the final
  element of an ordered sequence, or undefined if empty"; \<open>None\<close> is that \<open>undefined\<close>.
\<close>

definition last_elem :: "'a list \<Rightarrow> 'a option" where
  "last_elem xs = (if xs = [] then None else Some (last xs))"

text \<open>
  Modelled from the spec: \<open>get\<close> (\<open>object/get.ts\<close>) is missing. It "resolves an ordered
  key sequence against object; returns defaultValue (or undefined) if any intermediate
  step is missing or null/undefined", and (section 4.4) it gives the default for the
  empty sequence. \<open>get_path\<close> is the walk; \<open>None\<close> is a step taken from \<open>null\<close> or
  \<open>undefined\<close>. A walk that ends in \<open>undefined\<close> gives the default as well, one that
  ends in \<open>null\<close> gives \<open>null\<close>. Where \<open>invokeImpl\<close> passes \<open>object\<close> as the default,
  a parent path that is missing therefore resolves to \<open>object\<close>.
\<close>

fun get_path :: "heap \<Rightarrow> jsval \<Rightarrow> pkey list \<Rightarrow> jsval option" where
  "get_path h current [] = Some current"
| "get_path h current (key # rest) =
     (if is_nullish current then None
      else (case getProp h current key of
              Inl e \<Rightarrow> None
            | Inr v \<Rightarrow> get_path h v rest))"

definition get :: "heap \<Rightarrow> jsval \<Rightarrow> pkey list \<Rightarrow> jsval \<Rightarrow> jsval" where
  "get h object keys defaultValue =
     (if keys = [] then defaultValue
      else (case get_path h object keys of
              None \<Rightarrow> defaultValue
            | Some v \<Rightarrow> if v = Undefined then defaultValue else v))"

text \<open>
  Modelled from the spec: \<open>get\<close> once more, called with a single property key, as line 72
  of \<open>invoke\<close> calls it with the normalised last key. A path is a single key, a key
  sequence or a string in dot and bracket notation (section 3), and a flat key that
  holds a delimiter asks for "try direct lookup first, fall back to deep-path parsing"
  (section 9): a string is read as a property of the object; when that read is
  \<open>undefined\<close> and the string is a deep key, its tokens are resolved as a key sequence.
  A number or a symbol is read as a property.
\<close>

definition get_key :: "heap \<Rightarrow> jsval \<Rightarrow> pkey \<Rightarrow> jsval \<Rightarrow> error + jsval" where
  "get_key h object key defaultValue =
     (if is_nullish object then Inr defaultValue
      else (case getProp h object key of
              Inl e \<Rightarrow> Inl e
            | Inr result \<Rightarrow>
                if result = Undefined then
                  (case key of
                     KStr s \<Rightarrow>
                       if isDeepKey s then
                         (case toPath s of
                            Inl e \<Rightarrow> Inl e
                          | Inr keys \<Rightarrow> Inr (get h object keys defaultValue))
                       else Inr defaultValue
                   | _ \<Rightarrow> Inr defaultValue)
                else Inr result))"

section \<open>\<open>has\<close> (compat/object/has.ts, lines 87 to 120)\<close>

text \<open>
  Lines 88 to 96, the normalisation of the path: a sequence is used as it is; a string
  that is a deep key and whose direct lookup \<open>object?.[path]\<close> is \<open>null\<close> or
  \<open>undefined\<close> is tokenized; every other key becomes a sequence of one.
\<close>

fun resolvePath :: "heap \<Rightarrow> jsval \<Rightarrow> path \<Rightarrow> error + pkey list" where
  "resolvePath h object (PSeq keys) = Inr keys"
| "resolvePath h object (PKey (KStr s)) =
     (if isDeepKey s then
        (case opt_get h object (KStr s) of
           Inl e \<Rightarrow> Inl e
         | Inr v \<Rightarrow> if is_nullish v then toPath s else Inr [KStr s])
      else Inr [KStr s])"
| "resolvePath h object (PKey key) = Inr [key]"

text \<open>Line 108: \<open>current == null || !Object.hasOwn(current, key)\<close>, with its short circuit.\<close>

definition missing_step :: "heap \<Rightarrow> jsval \<Rightarrow> pkey \<Rightarrow> error + bool" where
  "missing_step h current key =
     (if is_nullish current then Inr True
      else (case hasOwn h current key of Inl e \<Rightarrow> Inl e | Inr b \<Rightarrow> Inr (\<not> b)))"

text \<open>
  Line 109:
  \<open>(Array.isArray(current) || isArguments(current)) && isIndex(key) && key < current.length\<close>.
\<close>

definition isSparseIndex :: "heap \<Rightarrow> jsval \<Rightarrow> pkey \<Rightarrow> bool" where
  "isSparseIndex h current key =
     ((isArray h current \<or> isArguments h current) \<and> isIndex key
      \<and> key_lt key (length_of h current))"

text \<open>Lines 104 to 119, the loop: one equation for the exit, one for an iteration.\<close>

fun has_walk :: "heap \<Rightarrow> jsval \<Rightarrow> pkey list \<Rightarrow> error + bool" where
  "has_walk h current [] = Inr True"
| "has_walk h current (key # rest) =
     (case missing_step h current key of
        Inl e \<Rightarrow> Inl e
      | Inr miss \<Rightarrow>
          if miss \<and> \<not> isSparseIndex h current key then Inr False
          else (case getProp h current key of
                  Inl e \<Rightarrow> Inl e
                | Inr v \<Rightarrow> has_walk h v rest))"

definition has :: "heap \<Rightarrow> jsval \<Rightarrow> path \<Rightarrow> error + bool" where
  "has h object p =
     (case resolvePath h object p of
        Inl e \<Rightarrow> Inl e
      | Inr resolvedPath \<Rightarrow>
          if resolvedPath = [] then Inr False else has_walk h object resolvedPath)"

text \<open>
  The value of \<open>current\<close> once the loop has consumed a prefix of the sequence without
  returning; \<open>None\<close> when it returned (or raised) within the prefix.
\<close>

fun reached :: "heap \<Rightarrow> jsval \<Rightarrow> pkey list \<Rightarrow> jsval option" where
  "reached h current [] = Some current"
| "reached h current (key # rest) =
     (case missing_step h current key of
        Inl e \<Rightarrow> None
      | Inr miss \<Rightarrow>
          if miss \<and> \<not> isSparseIndex h current key then None
          else (case getProp h current key of
                  Inl e \<Rightarrow> None
                | Inr v \<Rightarrow> reached h v rest))"

section \<open>\<open>invoke\<close> (lines 26 to 75 of its file)\<close>

text \<open>
  \<open>args.flat(1)\<close>: an argument that is an array is replaced by its elements (its holes
  are skipped), every other argument stays; no deeper level is opened.
\<close>

definition array_elems :: "jsobj \<Rightarrow> nat \<Rightarrow> jsval list" where
  "array_elems ob n = List.map_filter (\<lambda>i. props ob (PName (show_nat i))) [0..<n]"

fun flat_elem :: "heap \<Rightarrow> jsval \<Rightarrow> jsval list" where
  "flat_elem h (Ref a) = (case kind (h a) of Array n \<Rightarrow> array_elems (h a) n | _ \<Rightarrow> [Ref a])"
| "flat_elem h v = [v]"

definition flat1 :: "heap \<Rightarrow> jsval list \<Rightarrow> jsval list" where
  "flat1 h args = concat (map (flat_elem h) args)"

text \<open>\<open>key.valueOf()\<close> of a property key: the key itself, as a value.\<close>

fun valueOf :: "pkey \<Rightarrow> jsval" where
  "valueOf (KStr s) = Str s"
| "valueOf (KNum n) = Num n"
| "valueOf (KSym y) = Sym y"

text \<open>
  \<open>String(lastKey)\<close>, where \<open>lastKey\<close> is a property key or \<open>undefined\<close>: a symbol
  becomes the string \<open>Symbol(description)\<close>.
\<close>

fun toString :: "pkey option \<Rightarrow> string" where
  "toString None = ''undefined''"
| "toString (Some (KStr s)) = s"
| "toString (Some (KNum n)) = show_int n"
| "toString (Some (KSym (Symbol i d))) = ''Symbol('' @ d @ '')''"

text \<open>
  Lines 63 to 70: \<open>lastKey = last(path)\<close>, \<open>lastValue = lastKey?.valueOf()\<close>, then
  \<open>toKey(lastValue)\<close> when \<open>typeof lastValue === 'number'\<close> and \<open>String(lastKey)\<close>
  otherwise.
\<close>

definition normalizeLastKey :: "pkey list \<Rightarrow> pkey" where
  "normalizeLastKey keys =
     (let lastKey = last_elem keys;
          lastValue = map_option valueOf lastKey
      in case lastValue of
           Some (Num n) \<Rightarrow> KStr (toKey n)
         | _ \<Rightarrow> KStr (toString lastKey))"

text \<open>
  The call \<open>func.apply(parent, args)\<close> of line 74, for a \<open>func\<close> that is not \<open>null\<close> or
  \<open>undefined\<close>: which function runs, on which receiver and with which arguments.
  The property \<open>apply\<close> of \<open>func\<close> is read and called on \<open>func\<close> with the two arguments
  \<open>parent\<close> and the array \<open>args\<close>:
  \<^item> an own property \<open>apply\<close> that holds a function: that function runs, on \<open>func\<close> as
    receiver, with \<open>parent\<close> and the array;
  \<^item> a function object with no own \<open>apply\<close>: the read finds
    \<open>Function.prototype.apply\<close>, which runs \<open>func\<close> on \<open>parent\<close> as receiver with the
    elements of \<open>args\<close> as arguments;
  \<^item> in every other case (a primitive, an object that has no \<open>apply\<close>, an own \<open>apply\<close>
    that holds no function) what is called is no function: \<open>None\<close>.
\<close>

definition apply_target ::
    "heap \<Rightarrow> jsval \<Rightarrow> jsval \<Rightarrow> jsval list \<Rightarrow> (nat \<times> jsval \<times> jsarg list) option" where
  "apply_target h func parent args =
     (case func of
        Ref a \<Rightarrow>
          (case props (h a) (PName ''apply'') of
             Some v \<Rightarrow>
               (case v of
                  Ref b \<Rightarrow>
                    (case kind (h b) of
                       Function g \<Rightarrow> Some (g, func, [Arg parent, Fresh args])
                     | _ \<Rightarrow> None)
                | _ \<Rightarrow> None)
           | None \<Rightarrow>
               (case kind (h a) of
                  Function f \<Rightarrow> Some (f, parent, map Arg args)
                | _ \<Rightarrow> None))
      | _ \<Rightarrow> None)"

text \<open>
  Line 74, \<open>func?.apply(parent, args)\<close>: \<open>undefined\<close> when \<open>func\<close> is \<open>null\<close> or
  \<open>undefined\<close>; otherwise the call above, a \<open>TypeError\<close> when what it calls is no
  function.
\<close>

definition call_apply :: "(nat \<Rightarrow> jsfun) \<Rightarrow> heap \<Rightarrow> jsval \<Rightarrow> jsval \<Rightarrow> jsval list \<Rightarrow> (error + jsval) \<times> heap" where
  "call_apply fns h func parent args =
     (if is_nullish func then (Inr Undefined, h)
      else (case apply_target h func parent args of
              None \<Rightarrow> (Inl TypeError, h)
            | Some (f, this, as) \<Rightarrow> fns f this as h))"

text \<open>Lines 56 to 75. Line 72 hands the normalised last key to \<open>get\<close> as a single key.\<close>

definition invokeImpl :: "(nat \<Rightarrow> jsfun) \<Rightarrow> heap \<Rightarrow> jsval \<Rightarrow> pkey list \<Rightarrow> jsval list \<Rightarrow> (error + jsval) \<times> heap" where
  "invokeImpl fns h object keys args =
     (let parent = get h object (butlast keys) object
      in if is_nullish parent then (Inr Undefined, h)
         else let lastKey = normalizeLastKey keys
              in (case get_key h parent lastKey Undefined of
                    Inl e \<Rightarrow> (Inl e, h)
                  | Inr func \<Rightarrow> call_apply fns h func parent args))"

text \<open>Line 35: \<open>typeof object === 'object' && Object.hasOwn(object, path)\<close>.\<close>

definition own_of_object :: "heap \<Rightarrow> jsval \<Rightarrow> string \<Rightarrow> error + bool" where
  "own_of_object h object s =
     (if typeof_is_object h object then hasOwn h object (KStr s) else Inr False)"

text \<open>
  Lines 26 to 54. The \<open>default\<close> branch of the \<open>switch\<close> also takes a path that is no
  property key and no array; the parameter's type excludes it, and so does \<open>path\<close>.
\<close>

definition invoke :: "(nat \<Rightarrow> jsfun) \<Rightarrow> heap \<Rightarrow> jsval \<Rightarrow> path \<Rightarrow> jsval list \<Rightarrow> (error + jsval) \<times> heap" where
  "invoke fns h object p args0 =
     (let args = flat1 h args0
      in if is_nullish object then (Inr Undefined, h)
         else (case p of
                 PKey key \<Rightarrow>
                   (case key of
                      KStr s \<Rightarrow>
                        (case own_of_object h object s of
                           Inl e \<Rightarrow> (Inl e, h)
                         | Inr own \<Rightarrow>
                             if own then invokeImpl fns h object [KStr s] args
                             else (case toPath s of
                                     Inl e \<Rightarrow> (Inl e, h)
                                   | Inr keys \<Rightarrow> invokeImpl fns h object keys args))
                    | KNum n \<Rightarrow> invokeImpl fns h object [key] args
                    | KSym y \<Rightarrow> invokeImpl fns h object [key] args)
               | PSeq keys \<Rightarrow> invokeImpl fns h object keys args))"

text \<open>
  Lines 33 to 53 on their own: the key sequence that \<open>invoke\<close> hands to \<open>invokeImpl\<close>
  for an object that is not \<open>null\<close> or \<open>undefined\<close>. \<open>invoke\<close> is not defined through
  it; the two are related by a lemma.
\<close>

fun resolvedKeys :: "heap \<Rightarrow> jsval \<Rightarrow> path \<Rightarrow> error + pkey list" where
  "resolvedKeys h object (PSeq keys) = Inr keys"
| "resolvedKeys h object (PKey (KStr s)) =
     (case own_of_object h object s of
        Inl e \<Rightarrow> Inl e
      | Inr own \<Rightarrow> if own then Inr [KStr s] else toPath s)"
| "resolvedKeys h object (PKey key) = Inr [key]"

section \<open>\<open>has\<close> in store-passing form\<close>

text \<open>
  \<open>has\<close> above takes the store and returns a result only. To say that it does not write,
  the same lines are given once more with the store handed from step to step and
  returned at the end. Every step of \<open>has\<close> is a read, and a read hands the store on as
  it found it.
\<close>

definition read_st :: "(heap \<Rightarrow> 'a) \<Rightarrow> heap \<Rightarrow> 'a \<times> heap" where
  "read_st f h = (f h, h)"

fun has_walk_st :: "jsval \<Rightarrow> pkey list \<Rightarrow> heap \<Rightarrow> (error + bool) \<times> heap" where
  "has_walk_st current [] h = (Inr True, h)"
| "has_walk_st current (key # rest) h =
     (case read_st (\<lambda>s. missing_step s current key) h of
        (Inl e, h1) \<Rightarrow> (Inl e, h1)
      | (Inr miss, h1) \<Rightarrow>
          (case read_st (\<lambda>s. isSparseIndex s current key) h1 of
             (sparse, h2) \<Rightarrow>
               if miss \<and> \<not> sparse then (Inr False, h2)
               else (case read_st (\<lambda>s. getProp s current key) h2 of
                       (Inl e, h3) \<Rightarrow> (Inl e, h3)
                     | (Inr v, h3) \<Rightarrow> has_walk_st v rest h3)))"

definition has_st :: "heap \<Rightarrow> jsval \<Rightarrow> path \<Rightarrow> (error + bool) \<times> heap" where
  "has_st h object p =
     (case read_st (\<lambda>s. resolvePath s object p) h of
        (Inl e, h1) \<Rightarrow> (Inl e, h1)
      | (Inr resolvedPath, h1) \<Rightarrow>
          if resolvedPath = [] then (Inr False, h1) else has_walk_st object resolvedPath h1)"

section \<open>Stores and functions of the examples\<close>

definition empty_obj :: jsobj where
  "empty_obj = \<lparr>kind = Plain, props = Map.empty\<rparr>"

definition empty_heap :: heap where
  "empty_heap = (\<lambda>a. empty_obj)"

text \<open>\<open>[, , 3]\<close> at address 0, and \<open>{xs: [, , 3]}\<close> at address 1, holding it.\<close>

definition sparse_heap :: heap where
  "sparse_heap = empty_heap
     (0 := \<lparr>kind = Array 3, props = [PName ''2'' \<mapsto> Num 3]\<rparr>,
      1 := \<lparr>kind = Plain, props = [PName ''xs'' \<mapsto> Ref 0]\<rparr>)"

text \<open>\<open>{'a.b': 1}\<close> at address 0: one flat own property whose name has a dot.\<close>

definition flat_heap :: heap where
  "flat_heap = empty_heap(0 := \<lparr>kind = Plain, props = [PName ''a.b'' \<mapsto> Num 1]\<rparr>)"

text \<open>
  \<open>{a: {b: (x, y) => x + y}}\<close> at address 0, the inner object at 1, the function at 2;
  the array \<open>[1, 2]\<close> at 3, at 4 the array \<open>[[1, 2]]\<close> whose one element is it, and
  the empty array at 5. Every other address holds \<open>{}\<close>.
\<close>

definition add_heap :: heap where
  "add_heap = empty_heap
     (0 := \<lparr>kind = Plain, props = [PName ''a'' \<mapsto> Ref 1]\<rparr>,
      1 := \<lparr>kind = Plain, props = [PName ''b'' \<mapsto> Ref 2]\<rparr>,
      2 := \<lparr>kind = Function 0, props = Map.empty\<rparr>,
      3 := \<lparr>kind = Array 2, props = [PName ''0'' \<mapsto> Num 1, PName ''1'' \<mapsto> Num 2]\<rparr>,
      4 := \<lparr>kind = Array 1, props = [PName ''0'' \<mapsto> Ref 3]\<rparr>,
      5 := \<lparr>kind = Array 0, props = Map.empty\<rparr>)"

text \<open>
  The function \<open>(x, y) => x + y\<close> as every entry of a table. It adds its first two
  arguments when they are numbers; its result on other arguments is not a number of the
  embedding and is left as \<open>undefined\<close>.
\<close>

fun add_fn :: jsfun where
  "add_fn this (Arg (Num x) # Arg (Num y) # others) h = (Inr (Num (x + y)), h)"
| "add_fn this args h = (Inr Undefined, h)"

definition add_fns :: "nat \<Rightarrow> jsfun" where
  "add_fns f = add_fn"

text \<open>A table whose every function throws the string \<open>'boom'\<close>.\<close>

definition boom_fns :: "nat \<Rightarrow> jsfun" where
  "boom_fns f = (\<lambda>this args h. (Inl (Thrown (Str ''boom'')), h))"

text \<open>A table whose every function is \<open>() => 42\<close>.\<close>

definition answer_fns :: "nat \<Rightarrow> jsfun" where
  "answer_fns f = (\<lambda>this args h. (Inr (Num 42), h))"

text \<open>
  \<open>{m: {apply: () => 42}, n: {}, k: {apply: 5}}\<close> at address 0: the member \<open>m\<close>, at
  address 1, is no function and has an own \<open>apply\<close> that is one, at address 2; the
  member \<open>n\<close> is the empty object at address 3; the member \<open>k\<close>, at address 4, has an
  own \<open>apply\<close> that is a number.
\<close>

definition apply_heap :: heap where
  "apply_heap = empty_heap
     (0 := \<lparr>kind = Plain,
            props = [PName ''m'' \<mapsto> Ref 1, PName ''n'' \<mapsto> Ref 3, PName ''k'' \<mapsto> Ref 4]\<rparr>,
      1 := \<lparr>kind = Plain, props = [PName ''apply'' \<mapsto> Ref 2]\<rparr>,
      2 := \<lparr>kind = Function 0, props = Map.empty\<rparr>,
      4 := \<lparr>kind = Plain, props = [PName ''apply'' \<mapsto> Num 5]\<rparr>)"

text \<open>\<open>{a: null}\<close> at address 0.\<close>

definition null_heap :: heap where
  "null_heap = empty_heap(0 := \<lparr>kind = Plain, props = [PName ''a'' \<mapsto> Null]\<rparr>)"

text \<open>
  A function object at address 0 with the own property \<open>'a.b'\<close>, which holds the
  function at address 1.
\<close>

definition fn_heap :: heap where
  "fn_heap = empty_heap
     (0 := \<lparr>kind = Function 1, props = [PName ''a.b'' \<mapsto> Ref 1]\<rparr>,
      1 := \<lparr>kind = Function 0, props = Map.empty\<rparr>)"

text \<open>\<open>{undefined: (x, y) => x + y}\<close> at address 0, the function at 1.\<close>

definition undef_heap :: heap where
  "undef_heap = empty_heap
     (0 := \<lparr>kind = Plain, props = [PName ''undefined'' \<mapsto> Ref 1]\<rparr>,
      1 := \<lparr>kind = Function 0, props = Map.empty\<rparr>)"

text \<open>
  \<open>{n: 0, next() { return this.n++ }}\<close> at address 0, the method at 1: a callee that
  writes to its receiver.
\<close>

definition counter_heap :: heap where
  "counter_heap = empty_heap
     (0 := \<lparr>kind = Plain, props = [PName ''n'' \<mapsto> Num 0, PName ''next'' \<mapsto> Ref 1]\<rparr>,
      1 := \<lparr>kind = Function 0, props = Map.empty\<rparr>)"

fun next_fn :: jsfun where
  "next_fn (Ref a) args h =
     (case props (h a) (PName ''n'') of
        Some (Num n) \<Rightarrow>
          (Inr (Num n), h(a := (h a)\<lparr>props := (props (h a))(PName ''n'' \<mapsto> Num (n + 1))\<rparr>))
      | _ \<Rightarrow> (Inr Undefined, h))"
| "next_fn this args h = (Inr Undefined, h)"

definition next_fns :: "nat \<Rightarrow> jsfun" where
  "next_fns f = next_fn"

section \<open>Reads never fail off \<open>null\<close> and \<open>undefined\<close>\<close>

lemmas read_defs = is_nullish_def missing_step_def isSparseIndex_def obj_own_def obj_get_def
  lookup_def opt_get_def show_int_def show_nat.simps nat_of_digits_def digit_val_def
  unsigned_integer_string_def is_digit_def

lemmas toPath_defs = toPath_def escaped_def plainToken_def bracketToken_def quoted_def isDeepKey_def

lemmas heap_defs = empty_heap_def empty_obj_def

lemma getProp_ok: "\<not> is_nullish v \<Longrightarrow> \<exists>x. getProp h v key = Inr x"
  by (cases v) (auto simp: is_nullish_def)

lemma hasOwn_ok: "\<not> is_nullish v \<Longrightarrow> \<exists>b. hasOwn h v key = Inr b"
  by (cases v) (auto simp: is_nullish_def)






lemma has_walk_reached:
  "reached h object pre = Some current \<Longrightarrow> has_walk h object (pre @ post) = has_walk h current post"
proof (induction pre arbitrary: object)
  case Nil
  then show ?case by simp
next
  case (Cons key pre)
  then show ?case
    by (auto split: sum.splits if_splits)
qed


lemma missing_step_True:
  "is_nullish current \<or> hasOwn h current key = Inr False \<Longrightarrow> missing_step h current key = Inr True"
  by (auto simp: missing_step_def)

lemma defined_lookup_is_own:
  assumes "opt_get h object (KStr s) = Inr v" and "\<not> is_nullish v"
  shows "hasOwn h object (KStr s) = Inr True"
proof (cases object)
  case (Ref a)
  with assms show ?thesis
    by (auto simp: opt_get_def is_nullish_def obj_get_def obj_own_def lookup_def
        split: objkind.splits option.splits if_splits)
next
  case (Str t)
  with assms show ?thesis
    by (auto simp: opt_get_def is_nullish_def split: if_splits)
qed (use assms in \<open>auto simp: opt_get_def is_nullish_def\<close>)

lemma has_single_own:
  assumes "hasOwn h object key = Inr True"
  shows "has_walk h object [key] = Inr True"
proof -
  have nn: "\<not> is_nullish object"
    using assms by (cases object) (auto simp: is_nullish_def)
  then obtain x where "getProp h object key = Inr x"
    using getProp_ok by blast
  with assms nn show ?thesis
    by (simp add: missing_step_def)
qed

lemma scan_total: "\<exists>keys. scan m key result s = Inr keys"
  by (induction m key result s rule: scan.induct) auto

lemma toPath_total: "\<exists>keys. toPath s = Inr keys"
  unfolding toPath_def by (rule scan_total)


section \<open>Facts about the parts of \<open>invoke\<close>\<close>

lemmas invoke_defs = invoke_def invokeImpl_def own_of_object_def get_def get_key_def
  normalizeLastKey_def last_elem_def toKey_def flat1_def array_elems_def List.map_filter_def
  call_apply_def apply_target_def

lemma get_key_total: "\<exists>func. get_key h object key d = Inr func"
proof (cases "is_nullish object")
  case True
  then show ?thesis by (simp add: get_key_def)
next
  case False
  then obtain x where x: "getProp h object key = Inr x"
    using getProp_ok by blast
  show ?thesis
  proof (cases key)
    case (KStr s)
    obtain keys where "toPath s = Inr keys"
      using toPath_total by blast
    with False x KStr show ?thesis by (simp add: get_key_def)
  qed (use False x in \<open>simp_all add: get_key_def\<close>)
qed

lemma get_key_plain:
  "\<not> isDeepKey s \<Longrightarrow> get_key h object (KStr s) d = Inr (get h object [KStr s] d)"
proof (cases "is_nullish object")
  case True
  then show ?thesis by (simp add: get_key_def get_def)
next
  case False
  assume "\<not> isDeepKey s"
  moreover obtain x where "getProp h object (KStr s) = Inr x"
    using False getProp_ok by blast
  ultimately show ?thesis
    using False by (simp add: get_key_def get_def)
qed

lemma get_key_defined:
  "\<not> is_nullish object \<Longrightarrow> getProp h object key = Inr v \<Longrightarrow> v \<noteq> Undefined
   \<Longrightarrow> get_key h object key d = Inr v"
  by (simp add: get_key_def)

lemma call_apply_nullish: "is_nullish func \<Longrightarrow> call_apply fns h func parent args = (Inr Undefined, h)"
  by (simp add: call_apply_def)

lemma call_apply_none:
  "\<not> is_nullish func \<Longrightarrow> apply_target h func parent args = None
   \<Longrightarrow> call_apply fns h func parent args = (Inl TypeError, h)"
  by (simp add: call_apply_def)

lemma call_apply_some:
  "apply_target h func parent args = Some (f, this, as)
   \<Longrightarrow> call_apply fns h func parent args = fns f this as h"
  by (cases func) (simp_all add: call_apply_def apply_target_def is_nullish_def)

lemma apply_target_function:
  "kind (h a) = Function f \<Longrightarrow> props (h a) (PName ''apply'') = None
   \<Longrightarrow> apply_target h (Ref a) parent args = Some (f, parent, map Arg args)"
  by (simp add: apply_target_def)

lemma apply_target_own:
  "props (h a) (PName ''apply'') = Some (Ref b) \<Longrightarrow> kind (h b) = Function g
   \<Longrightarrow> apply_target h (Ref a) parent args = Some (g, Ref a, [Arg parent, Fresh args])"
  by (simp add: apply_target_def)

lemma apply_target_primitive:
  "\<forall>a. func \<noteq> Ref a \<Longrightarrow> apply_target h func parent args = None"
  by (cases func) (simp_all add: apply_target_def)

lemma apply_target_plain:
  "\<not> is_function h (Ref a) \<Longrightarrow> props (h a) (PName ''apply'') = None
   \<Longrightarrow> apply_target h (Ref a) parent args = None"
  by (auto simp: apply_target_def split: objkind.splits)

lemma apply_target_own_other:
  "props (h a) (PName ''apply'') = Some v \<Longrightarrow> \<not> is_function h v
   \<Longrightarrow> apply_target h (Ref a) parent args = None"
  by (cases v) (auto simp: apply_target_def split: objkind.splits)

lemma invokeImpl_nullish:
  "is_nullish (get h object (butlast keys) object)
   \<Longrightarrow> invokeImpl fns h object keys args = (Inr Undefined, h)"
  by (simp add: invokeImpl_def)

lemma invokeImpl_call:
  "\<not> is_nullish (get h object (butlast keys) object) \<Longrightarrow>
   get_key h (get h object (butlast keys) object) (normalizeLastKey keys) Undefined = Inr func \<Longrightarrow>
   invokeImpl fns h object keys args =
     call_apply fns h func (get h object (butlast keys) object) args"
  by (simp add: invokeImpl_def Let_def)

lemma invoke_PSeq:
  "\<not> is_nullish object \<Longrightarrow> invoke fns h object (PSeq keys) args = invokeImpl fns h object keys (flat1 h args)"
  by (simp add: invoke_def)

lemma invoke_resolvedKeys:
  "\<not> is_nullish object \<Longrightarrow>
   invoke fns h object p args =
     (case resolvedKeys h object p of
        Inl e \<Rightarrow> (Inl e, h)
      | Inr keys \<Rightarrow> invokeImpl fns h object keys (flat1 h args))"
  by (cases "(h, object, p)" rule: resolvedKeys.cases)
     (auto simp: invoke_def Let_def split: sum.splits)

lemma resolvedKeys_total:
  "\<not> is_nullish object \<Longrightarrow> \<exists>keys. resolvedKeys h object p = Inr keys"
proof (induction h object p rule: resolvedKeys.induct)
  case (2 h object s)
  then obtain b where "hasOwn h object (KStr s) = Inr b"
    using hasOwn_ok by blast
  then have "\<exists>own. own_of_object h object s = Inr own"
    by (auto simp: own_of_object_def)
  with toPath_total [of s] show ?case by auto
qed auto

lemma flat1_Cons: "flat1 h (v # vs) = flat_elem h v @ flat1 h vs"
  by (simp add: flat1_def)

lemma flat_elem_other: "\<not> isArray h v \<Longrightarrow> flat_elem h v = [v]"
  by (cases v) (auto split: objkind.splits)

lemma normalizeLastKey_snoc:
  "normalizeLastKey (keys @ [key]) =
     (case key of KNum n \<Rightarrow> KStr (toKey n) | _ \<Rightarrow> KStr (toString (Some key)))"
  by (cases key) (simp_all add: normalizeLastKey_def last_elem_def)

lemma call_apply_frame:
  "snd (call_apply fns h func parent args) = h
   \<or> (\<exists>f this passed. call_apply fns h func parent args = fns f this passed h)"
  by (auto simp: call_apply_def split: option.splits)

lemma invokeImpl_frame:
  "snd (invokeImpl fns h object keys args) = h
   \<or> (\<exists>f this passed. invokeImpl fns h object keys args = fns f this passed h)"
proof (cases "is_nullish (get h object (butlast keys) object)")
  case True
  then show ?thesis by (simp add: invokeImpl_def)
next
  case False
  obtain func where "get_key h (get h object (butlast keys) object) (normalizeLastKey keys) Undefined
      = Inr func"
    using get_key_total by blast
  from invokeImpl_call [OF False this]
    call_apply_frame [of fns h func "get h object (butlast keys) object" args]
  show ?thesis by metis
qed

lemma invoke_frame:
  "snd (invoke fns h object p args) = h
   \<or> (\<exists>f this passed. invoke fns h object p args = fns f this passed h)"
proof (cases "is_nullish object")
  case True
  then show ?thesis by (simp add: invoke_def)
next
  case False
  obtain keys where "resolvedKeys h object p = Inr keys"
    using False resolvedKeys_total by blast
  with invoke_resolvedKeys [OF False, of fns h p args]
  have "invoke fns h object p args = invokeImpl fns h object keys (flat1 h args)"
    by simp
  with invokeImpl_frame [of fns h object keys "flat1 h args"] show ?thesis
    by metis
qed

lemma has_walk_st_has_walk: "has_walk_st current keys h = (has_walk h current keys, h)"
  by (induction keys arbitrary: current) (auto simp: read_st_def split: sum.splits)

lemma has_st_has: "has_st h object p = (has h object p, h)"
  by (auto simp: has_st_def has_def read_st_def has_walk_st_has_walk split: sum.splits)

section \<open>The existence check\<close>

text \<open>
  C1. Let the loop of \<open>has\<close> have reached \<open>current\<close> after a prefix of the key sequence,
  and let the next token be missing there: \<open>current\<close> is \<open>null\<close>/\<open>undefined\<close>, or the
  token is no own property of it. Then \<open>has\<close> returns false, unless \<open>current\<close> is an
  array or an arguments object, the token passes \<open>isIndex\<close> and is below
  \<open>current.length\<close>; in that case the step counts as satisfied and the walk goes on from
  \<open>current[token]\<close> with the remaining tokens. In particular \<open>has([, , 3], 1)\<close> is true
  and \<open>has([, , 3], 5)\<close> is false.
\<close>

theorem has_sparse_index_exception:
  "(reached h object pre = Some current
      \<and> (is_nullish current \<or> hasOwn h current key = Inr False)
    \<longrightarrow> has h object (PSeq (pre @ key # rest)) =
          (if (isArray h current \<or> isArguments h current) \<and> isIndex key
              \<and> key_lt key (length_of h current)
           then (case getProp h current key of Inl e \<Rightarrow> Inl e | Inr v \<Rightarrow> has_walk h v rest)
           else Inr False))
   \<and> has sparse_heap (Ref 0) (PKey (KNum 1)) = Inr True
   \<and> has sparse_heap (Ref 0) (PKey (KNum 5)) = Inr False"
proof -
  have step: "has h object (PSeq (pre @ key # rest)) =
      (if isSparseIndex h current key
       then (case getProp h current key of Inl e \<Rightarrow> Inl e | Inr v \<Rightarrow> has_walk h v rest)
       else Inr False)"
    if r: "reached h object pre = Some current"
      and m: "is_nullish current \<or> hasOwn h current key = Inr False"
  proof -
    have "has h object (PSeq (pre @ key # rest)) = has_walk h object (pre @ key # rest)"
      by (simp add: has_def)
    also have "\<dots> = has_walk h current (key # rest)"
      using r by (rule has_walk_reached)
    also have "\<dots> = (if isSparseIndex h current key
                      then (case getProp h current key of Inl e \<Rightarrow> Inl e | Inr v \<Rightarrow> has_walk h v rest)
                      else Inr False)"
      using missing_step_True [OF m] by simp
    finally show ?thesis .
  qed
  have one: "has sparse_heap (Ref 0) (PKey (KNum 1)) = Inr True"
    by (simp add: has_def heap_defs sparse_heap_def read_defs)
  have five: "has sparse_heap (Ref 0) (PKey (KNum 5)) = Inr False"
    by (simp add: has_def heap_defs sparse_heap_def read_defs)
  from step one five show ?thesis
    by (simp add: isSparseIndex_def)
qed

theorem has_sparse_index_exception_witness:
  "reached sparse_heap (Ref 1) [KStr ''xs''] = Some (Ref 0)
   \<and> hasOwn sparse_heap (Ref 0) (KNum 1) = Inr False
   \<and> has sparse_heap (Ref 1) (PSeq [KStr ''xs'', KNum 1]) = Inr True
   \<and> hasOwn sparse_heap (Ref 0) (KNum 5) = Inr False
   \<and> has sparse_heap (Ref 1) (PSeq [KStr ''xs'', KNum 5]) = Inr False"
proof -
  have r: "reached sparse_heap (Ref 1) [KStr ''xs''] = Some (Ref 0)"
    by (simp add: heap_defs sparse_heap_def read_defs)
  have o1: "hasOwn sparse_heap (Ref 0) (KNum 1) = Inr False"
    by (simp add: heap_defs sparse_heap_def read_defs)
  have o5: "hasOwn sparse_heap (Ref 0) (KNum 5) = Inr False"
    by (simp add: heap_defs sparse_heap_def read_defs)
  note in_bounds = has_sparse_index_exception
    [of sparse_heap "Ref 1" "[KStr ''xs'']" "Ref 0" "KNum 1" "[]"]
  note beyond = has_sparse_index_exception
    [of sparse_heap "Ref 1" "[KStr ''xs'']" "Ref 0" "KNum 5" "[]"]
  from in_bounds r o1
  have "has sparse_heap (Ref 1) (PSeq ([KStr ''xs''] @ [KNum 1])) =
      (if (isArray sparse_heap (Ref 0) \<or> isArguments sparse_heap (Ref 0)) \<and> isIndex (KNum 1)
          \<and> key_lt (KNum 1) (length_of sparse_heap (Ref 0))
       then (case getProp sparse_heap (Ref 0) (KNum 1) of
               Inl e \<Rightarrow> Inl e
             | Inr v \<Rightarrow> has_walk sparse_heap v [])
       else Inr False)"
    by blast
  then have t: "has sparse_heap (Ref 1) (PSeq [KStr ''xs'', KNum 1]) = Inr True"
    by (simp add: heap_defs sparse_heap_def)
  from beyond r o5
  have "has sparse_heap (Ref 1) (PSeq ([KStr ''xs''] @ [KNum 5])) =
      (if (isArray sparse_heap (Ref 0) \<or> isArguments sparse_heap (Ref 0)) \<and> isIndex (KNum 5)
          \<and> key_lt (KNum 5) (length_of sparse_heap (Ref 0))
       then (case getProp sparse_heap (Ref 0) (KNum 5) of
               Inl e \<Rightarrow> Inl e
             | Inr v \<Rightarrow> has_walk sparse_heap v [])
       else Inr False)"
    by blast
  then have f: "has sparse_heap (Ref 1) (PSeq [KStr ''xs'', KNum 5]) = Inr False"
    by (simp add: heap_defs sparse_heap_def)
  from r o1 t o5 f show ?thesis by blast
qed

text \<open>
  C2. Before the walk, \<open>has\<close> normalises the path: a sequence is used as it is; a
  string that is a deep key and whose direct lookup \<open>object?.[path]\<close> is \<open>null\<close> or
  \<open>undefined\<close> is tokenized by \<open>toPath\<close>; every other key (a string that is no deep
  key, a deep key whose direct lookup is defined, a number, a symbol) becomes the sequence
  of that one key. \<open>has\<close> is the walk of the normalised sequence, false when it is empty.
  So a flat own property whose name is a deep key and whose value is defined is found by
  the direct lookup: \<open>has\<close> is true for it.
\<close>

theorem has_path_normalisation:
  "resolvePath h object (PSeq keys) = Inr keys
   \<and> (isDeepKey s \<and> opt_get h object (KStr s) = Inr v \<and> is_nullish v
        \<longrightarrow> resolvePath h object (PKey (KStr s)) = toPath s)
   \<and> (\<not> isDeepKey s \<or> (opt_get h object (KStr s) = Inr v \<and> \<not> is_nullish v)
        \<longrightarrow> resolvePath h object (PKey (KStr s)) = Inr [KStr s])
   \<and> resolvePath h object (PKey (KNum n)) = Inr [KNum n]
   \<and> resolvePath h object (PKey (KSym y)) = Inr [KSym y]
   \<and> has h object p =
        (case resolvePath h object p of
           Inl e \<Rightarrow> Inl e
         | Inr resolvedPath \<Rightarrow>
             if resolvedPath = [] then Inr False else has_walk h object resolvedPath)
   \<and> (isDeepKey s \<and> opt_get h object (KStr s) = Inr v \<and> \<not> is_nullish v
        \<longrightarrow> has h object (PKey (KStr s)) = Inr True)"
proof -
  have direct: "has h object (PKey (KStr s)) = Inr True"
    if "isDeepKey s" and g: "opt_get h object (KStr s) = Inr v" and nn: "\<not> is_nullish v"
  proof -
    have "resolvePath h object (PKey (KStr s)) = Inr [KStr s]"
      using that by simp
    moreover have "has_walk h object [KStr s] = Inr True"
      using defined_lookup_is_own [OF g nn] by (rule has_single_own)
    ultimately show ?thesis by (simp add: has_def)
  qed
  have "has h object p =
        (case resolvePath h object p of
           Inl e \<Rightarrow> Inl e
         | Inr resolvedPath \<Rightarrow>
             if resolvedPath = [] then Inr False else has_walk h object resolvedPath)"
    by (simp add: has_def)
  with direct show ?thesis by auto
qed

theorem has_path_normalisation_witness:
  "isDeepKey ''a.b'' \<and> opt_get flat_heap (Ref 0) (KStr ''a.b'') = Inr (Num 1) \<and> \<not> is_nullish (Num 1)
   \<and> resolvePath flat_heap (Ref 0) (PKey (KStr ''a.b'')) = Inr [KStr ''a.b'']
   \<and> has flat_heap (Ref 0) (PKey (KStr ''a.b'')) = Inr True
   \<and> opt_get add_heap (Ref 0) (KStr ''a.b'') = Inr Undefined \<and> is_nullish Undefined
   \<and> resolvePath add_heap (Ref 0) (PKey (KStr ''a.b'')) = toPath ''a.b''
   \<and> \<not> isDeepKey ''a''
   \<and> resolvePath add_heap (Ref 0) (PKey (KStr ''a'')) = Inr [KStr ''a'']"
proof -
  have d: "isDeepKey ''a.b''" by (simp add: isDeepKey_def)
  have g: "opt_get flat_heap (Ref 0) (KStr ''a.b'') = Inr (Num 1)"
    by (simp add: heap_defs flat_heap_def add_heap_def read_defs)
  have n: "\<not> is_nullish (Num 1)" by (simp add: is_nullish_def)
  have g': "opt_get add_heap (Ref 0) (KStr ''a.b'') = Inr Undefined"
    by (simp add: heap_defs flat_heap_def add_heap_def read_defs)
  have n': "is_nullish Undefined" by (simp add: is_nullish_def)
  have p: "\<not> isDeepKey ''a''" by (simp add: isDeepKey_def)
  note flat = has_path_normalisation [of flat_heap "Ref 0" "[]" "''a.b''" "Num 1" 0 "Symbol 0 []" "PSeq []"]
  note deep = has_path_normalisation [of add_heap "Ref 0" "[]" "''a.b''" Undefined 0 "Symbol 0 []" "PSeq []"]
  note plain = has_path_normalisation [of add_heap "Ref 0" "[]" "''a''" Undefined 0 "Symbol 0 []" "PSeq []"]
  from flat d g n have "resolvePath flat_heap (Ref 0) (PKey (KStr ''a.b'')) = Inr [KStr ''a.b'']"
    and "has flat_heap (Ref 0) (PKey (KStr ''a.b'')) = Inr True"
    by blast+
  moreover from deep d g' n' have "resolvePath add_heap (Ref 0) (PKey (KStr ''a.b'')) = toPath ''a.b''"
    by blast
  moreover from plain p have "resolvePath add_heap (Ref 0) (PKey (KStr ''a'')) = Inr [KStr ''a'']"
    by blast
  ultimately show ?thesis using d g n g' n' p by blast
qed

text \<open>
  C4, as amended. For a string \<open>p\<close> that is a deep key, that \<open>toPath\<close> parses, and whose
  direct lookup \<open>o[p]\<close> is \<open>null\<close> or \<open>undefined\<close>, \<open>has(o, p)\<close> equals
  \<open>has(o, toPath(p))\<close>.
\<close>

theorem has_deep_key_tokenized:
  assumes "isDeepKey s"
    and "opt_get h object (KStr s) = Inr v"
    and "is_nullish v"
    and "toPath s = Inr keys"
  shows "has h object (PKey (KStr s)) = has h object (PSeq keys)"
  using assms by (simp add: has_def)

theorem has_deep_key_tokenized_witness:
  "isDeepKey ''a.b''
   \<and> opt_get add_heap (Ref 0) (KStr ''a.b'') = Inr Undefined
   \<and> is_nullish Undefined
   \<and> toPath ''a.b'' = Inr [KStr ''a'', KStr ''b'']
   \<and> has add_heap (Ref 0) (PKey (KStr ''a.b'')) = has add_heap (Ref 0) (PSeq [KStr ''a'', KStr ''b''])
   \<and> has add_heap (Ref 0) (PSeq [KStr ''a'', KStr ''b'']) = Inr True"
proof -
  have d: "isDeepKey ''a.b''" by (simp add: isDeepKey_def)
  have g: "opt_get add_heap (Ref 0) (KStr ''a.b'') = Inr Undefined"
    by (simp add: heap_defs add_heap_def read_defs)
  have n: "is_nullish Undefined" by (simp add: is_nullish_def)
  have t: "toPath ''a.b'' = Inr [KStr ''a'', KStr ''b'']" by (simp add: toPath_defs)
  have w: "has add_heap (Ref 0) (PSeq [KStr ''a'', KStr ''b'']) = Inr True"
    by (simp add: has_def heap_defs add_heap_def read_defs)
  from has_deep_key_tokenized [OF d g n t] d g n t w show ?thesis by simp
qed

text \<open>
  C4 as stated fails where the direct lookup is defined: on \<open>{'a.b': 1}\<close> the deep key
  \<open>'a.b'\<close> exists as a flat own property, and the sequence \<open>['a', 'b']\<close> does not
  resolve.
\<close>

theorem has_toPath_equation_counterexample:
  "isDeepKey ''a.b''
   \<and> toPath ''a.b'' = Inr [KStr ''a'', KStr ''b'']
   \<and> has flat_heap (Ref 0) (PKey (KStr ''a.b'')) = Inr True
   \<and> has flat_heap (Ref 0) (PSeq [KStr ''a'', KStr ''b'']) = Inr False"
  by (simp add: has_def toPath_defs heap_defs flat_heap_def read_defs)



section \<open>The invocation\<close>

text \<open>
  C3, as amended. Let \<open>parent\<close> be what \<open>invokeImpl\<close> resolves for all tokens but the
  last, and \<open>func\<close> the member that \<open>get\<close> finds on \<open>parent\<close> for the normalised last
  token. If \<open>parent\<close> is \<open>null\<close> or \<open>undefined\<close>, or \<open>func\<close> is, \<open>invokeImpl\<close> returns
  \<open>undefined\<close> and leaves the store as it was. A defined \<open>func\<close> is called through its
  property \<open>apply\<close>. If \<open>func\<close> is a function (and no own \<open>apply\<close> hides the built-in
  one), the outcome of \<open>invokeImpl\<close> is the outcome of that function on \<open>parent\<close> as
  receiver: its result, or the error it raises, unchanged. If \<open>func\<close> is a primitive (a
  number, a string, a boolean, a symbol), an object that is no function and has no own
  \<open>apply\<close>, or a value whose own \<open>apply\<close> holds no function, \<open>invokeImpl\<close> raises a
  \<open>TypeError\<close>. If the own \<open>apply\<close> of \<open>func\<close> holds a function, that function is
  called on \<open>func\<close> with \<open>parent\<close> and the array of arguments.
\<close>

theorem invokeImpl_outcomes:
  assumes "get h object (butlast keys) object = parent"
    and "get_key h parent (normalizeLastKey keys) Undefined = Inr func"
  shows "(is_nullish parent \<longrightarrow> invokeImpl fns h object keys args = (Inr Undefined, h))
       \<and> (\<not> is_nullish parent \<and> is_nullish func
            \<longrightarrow> invokeImpl fns h object keys args = (Inr Undefined, h))
       \<and> (\<not> is_nullish parent \<and> func = Ref a \<and> kind (h a) = Function f
            \<and> props (h a) (PName ''apply'') = None
            \<longrightarrow> invokeImpl fns h object keys args = fns f parent (map Arg args) h)
       \<and> (\<not> is_nullish parent \<and> \<not> is_nullish func \<and> (\<forall>c. func \<noteq> Ref c)
            \<longrightarrow> invokeImpl fns h object keys args = (Inl TypeError, h))
       \<and> (\<not> is_nullish parent \<and> func = Ref a \<and> \<not> is_function h func
            \<and> props (h a) (PName ''apply'') = None
            \<longrightarrow> invokeImpl fns h object keys args = (Inl TypeError, h))
       \<and> (\<not> is_nullish parent \<and> func = Ref a \<and> props (h a) (PName ''apply'') = Some v
            \<and> \<not> is_function h v
            \<longrightarrow> invokeImpl fns h object keys args = (Inl TypeError, h))
       \<and> (\<not> is_nullish parent \<and> func = Ref a \<and> props (h a) (PName ''apply'') = Some (Ref b)
            \<and> kind (h b) = Function g
            \<longrightarrow> invokeImpl fns h object keys args = fns g func [Arg parent, Fresh args] h)"
proof -
  have none: "invokeImpl fns h object keys args = (Inr Undefined, h)" if "is_nullish parent"
    using that assms(1) invokeImpl_nullish [of h object keys fns args] by simp
  have call: "invokeImpl fns h object keys args = call_apply fns h func parent args"
    if "\<not> is_nullish parent"
    using that assms invokeImpl_call [of h object keys func fns args] by simp
  have ref: "\<not> is_nullish (Ref c)" for c
    by (simp add: is_nullish_def)
  have two: "invokeImpl fns h object keys args = (Inr Undefined, h)"
    if "\<not> is_nullish parent" "is_nullish func"
    using that call call_apply_nullish by simp
  have three: "invokeImpl fns h object keys args = fns f parent (map Arg args) h"
    if "\<not> is_nullish parent" "func = Ref a" "kind (h a) = Function f"
      "props (h a) (PName ''apply'') = None"
    using that call call_apply_some [OF apply_target_function] by simp
  have four: "invokeImpl fns h object keys args = (Inl TypeError, h)"
    if "\<not> is_nullish parent" "\<not> is_nullish func" "\<forall>c. func \<noteq> Ref c"
    using that call call_apply_none [OF _ apply_target_primitive] by simp
  have five: "invokeImpl fns h object keys args = (Inl TypeError, h)"
    if "\<not> is_nullish parent" "func = Ref a" "\<not> is_function h func"
      "props (h a) (PName ''apply'') = None"
    using that call ref call_apply_none [OF _ apply_target_plain] by simp
  have six: "invokeImpl fns h object keys args = (Inl TypeError, h)"
    if "\<not> is_nullish parent" "func = Ref a" "props (h a) (PName ''apply'') = Some v"
      "\<not> is_function h v"
    using that call ref call_apply_none [OF _ apply_target_own_other] by simp
  have seven: "invokeImpl fns h object keys args = fns g func [Arg parent, Fresh args] h"
    if "\<not> is_nullish parent" "func = Ref a" "props (h a) (PName ''apply'') = Some (Ref b)"
      "kind (h b) = Function g"
    using that call call_apply_some [OF apply_target_own] by simp
  show ?thesis
    by (intro conjI impI) (use none two three four five six seven in auto)
qed

theorem invokeImpl_outcomes_witness:
  "get add_heap (Ref 0) (butlast [KStr ''a'', KStr ''b'']) (Ref 0) = Ref 1
   \<and> get_key add_heap (Ref 1) (normalizeLastKey [KStr ''a'', KStr ''b'']) Undefined = Inr (Ref 2)
   \<and> \<not> is_nullish (Ref 1) \<and> kind (add_heap 2) = Function 0
   \<and> props (add_heap 2) (PName ''apply'') = None
   \<and> invokeImpl add_fns add_heap (Ref 0) [KStr ''a'', KStr ''b''] [Num 1, Num 2] = (Inr (Num 3), add_heap)
   \<and> invokeImpl boom_fns add_heap (Ref 0) [KStr ''a'', KStr ''b''] [Num 1, Num 2]
        = (Inl (Thrown (Str ''boom'')), add_heap)
   \<and> get_key add_heap (Ref 1) (normalizeLastKey [KStr ''a'', KStr ''c'']) Undefined = Inr Undefined
   \<and> is_nullish Undefined
   \<and> invokeImpl add_fns add_heap (Ref 0) [KStr ''a'', KStr ''c''] [Num 1, Num 2] = (Inr Undefined, add_heap)
   \<and> get flat_heap (Ref 0) (butlast [KStr ''a.b'']) (Ref 0) = Ref 0
   \<and> get_key flat_heap (Ref 0) (normalizeLastKey [KStr ''a.b'']) Undefined = Inr (Num 1)
   \<and> \<not> is_nullish (Ref 0) \<and> \<not> is_nullish (Num 1) \<and> (\<forall>c. Num 1 \<noteq> Ref c)
   \<and> invokeImpl add_fns flat_heap (Ref 0) [KStr ''a.b''] [] = (Inl TypeError, flat_heap)
   \<and> get null_heap (Ref 0) (butlast [KStr ''a'', KStr ''b'']) (Ref 0) = Null
   \<and> is_nullish Null
   \<and> invokeImpl add_fns null_heap (Ref 0) [KStr ''a'', KStr ''b''] [] = (Inr Undefined, null_heap)
   \<and> get_key apply_heap (Ref 0) (normalizeLastKey [KStr ''m'']) Undefined = Inr (Ref 1)
   \<and> props (apply_heap 1) (PName ''apply'') = Some (Ref 2) \<and> kind (apply_heap 2) = Function 0
   \<and> invokeImpl answer_fns apply_heap (Ref 0) [KStr ''m''] [] = (Inr (Num 42), apply_heap)
   \<and> get_key apply_heap (Ref 0) (normalizeLastKey [KStr ''n'']) Undefined = Inr (Ref 3)
   \<and> \<not> is_function apply_heap (Ref 3) \<and> props (apply_heap 3) (PName ''apply'') = None
   \<and> invokeImpl answer_fns apply_heap (Ref 0) [KStr ''n''] [] = (Inl TypeError, apply_heap)
   \<and> get_key apply_heap (Ref 0) (normalizeLastKey [KStr ''k'']) Undefined = Inr (Ref 4)
   \<and> props (apply_heap 4) (PName ''apply'') = Some (Num 5) \<and> \<not> is_function apply_heap (Num 5)
   \<and> invokeImpl answer_fns apply_heap (Ref 0) [KStr ''k''] [] = (Inl TypeError, apply_heap)"
proof -
  have nn: "\<not> is_nullish (Ref 1)" "\<not> is_nullish (Ref 0)" "\<not> is_nullish (Num 1)"
    "is_nullish Undefined" "is_nullish Null" "\<forall>c. Num 1 \<noteq> Ref c"
    by (simp_all add: is_nullish_def)
  have p: "get add_heap (Ref 0) (butlast [KStr ''a'', KStr ''b'']) (Ref 0) = Ref 1"
    by (simp add: get_def heap_defs add_heap_def read_defs)
  have m: "get_key add_heap (Ref 1) (normalizeLastKey [KStr ''a'', KStr ''b'']) Undefined = Inr (Ref 2)"
    by (simp add: get_key_def normalizeLastKey_def last_elem_def heap_defs add_heap_def read_defs)
  have k: "kind (add_heap 2) = Function 0" "props (add_heap 2) (PName ''apply'') = None"
    by (simp_all add: heap_defs add_heap_def)
  have "invokeImpl add_fns add_heap (Ref 0) [KStr ''a'', KStr ''b''] [Num 1, Num 2]
          = add_fns 0 (Ref 1) (map Arg [Num 1, Num 2]) add_heap"
    using invokeImpl_outcomes [OF p m, where a = 2 and f = 0 and fns = add_fns
        and args = "[Num 1, Num 2]"] nn k
    by blast
  then have one: "invokeImpl add_fns add_heap (Ref 0) [KStr ''a'', KStr ''b''] [Num 1, Num 2]
          = (Inr (Num 3), add_heap)"
    by (simp add: add_fns_def)
  have "invokeImpl boom_fns add_heap (Ref 0) [KStr ''a'', KStr ''b''] [Num 1, Num 2]
          = boom_fns 0 (Ref 1) (map Arg [Num 1, Num 2]) add_heap"
    using invokeImpl_outcomes [OF p m, where a = 2 and f = 0 and fns = boom_fns
        and args = "[Num 1, Num 2]"] nn k
    by blast
  then have thrown: "invokeImpl boom_fns add_heap (Ref 0) [KStr ''a'', KStr ''b''] [Num 1, Num 2]
          = (Inl (Thrown (Str ''boom'')), add_heap)"
    by (simp add: boom_fns_def)
  have p': "get add_heap (Ref 0) (butlast [KStr ''a'', KStr ''c'']) (Ref 0) = Ref 1"
    by (simp add: get_def heap_defs add_heap_def read_defs)
  have m': "get_key add_heap (Ref 1) (normalizeLastKey [KStr ''a'', KStr ''c'']) Undefined = Inr Undefined"
    by (simp add: get_key_def normalizeLastKey_def last_elem_def isDeepKey_def
        heap_defs add_heap_def read_defs)
  have two: "invokeImpl add_fns add_heap (Ref 0) [KStr ''a'', KStr ''c''] [Num 1, Num 2]
          = (Inr Undefined, add_heap)"
    using invokeImpl_outcomes [OF p' m', where fns = add_fns and args = "[Num 1, Num 2]"] nn
    by blast
  have q: "get flat_heap (Ref 0) (butlast [KStr ''a.b'']) (Ref 0) = Ref 0"
    by (simp add: get_def)
  have n: "get_key flat_heap (Ref 0) (normalizeLastKey [KStr ''a.b'']) Undefined = Inr (Num 1)"
    by (simp add: get_key_def normalizeLastKey_def last_elem_def heap_defs flat_heap_def read_defs)
  have three: "invokeImpl add_fns flat_heap (Ref 0) [KStr ''a.b''] [] = (Inl TypeError, flat_heap)"
    using invokeImpl_outcomes [OF q n, where fns = add_fns and args = "[]"] nn
    by blast
  have z: "get null_heap (Ref 0) (butlast [KStr ''a'', KStr ''b'']) (Ref 0) = Null"
    by (simp add: get_def heap_defs null_heap_def read_defs)
  have z': "get_key null_heap Null (normalizeLastKey [KStr ''a'', KStr ''b'']) Undefined = Inr Undefined"
    by (simp add: get_key_def is_nullish_def)
  have four: "invokeImpl add_fns null_heap (Ref 0) [KStr ''a'', KStr ''b''] [] = (Inr Undefined, null_heap)"
    using invokeImpl_outcomes [OF z z', where fns = add_fns and args = "[]"] nn
    by blast
  have r: "get apply_heap (Ref 0) (butlast [KStr ''m'']) (Ref 0) = Ref 0"
    "get apply_heap (Ref 0) (butlast [KStr ''n'']) (Ref 0) = Ref 0"
    "get apply_heap (Ref 0) (butlast [KStr ''k'']) (Ref 0) = Ref 0"
    by (simp_all add: get_def)
  have gm: "get_key apply_heap (Ref 0) (normalizeLastKey [KStr ''m'']) Undefined = Inr (Ref 1)"
    by (simp add: get_key_def normalizeLastKey_def last_elem_def heap_defs apply_heap_def read_defs)
  have gn: "get_key apply_heap (Ref 0) (normalizeLastKey [KStr ''n'']) Undefined = Inr (Ref 3)"
    by (simp add: get_key_def normalizeLastKey_def last_elem_def heap_defs apply_heap_def read_defs)
  have gk: "get_key apply_heap (Ref 0) (normalizeLastKey [KStr ''k'']) Undefined = Inr (Ref 4)"
    by (simp add: get_key_def normalizeLastKey_def last_elem_def heap_defs apply_heap_def read_defs)
  have am: "props (apply_heap 1) (PName ''apply'') = Some (Ref 2)" "kind (apply_heap 2) = Function 0"
    and an: "\<not> is_function apply_heap (Ref 3)" "props (apply_heap 3) (PName ''apply'') = None"
    and ak: "props (apply_heap 4) (PName ''apply'') = Some (Num 5)" "\<not> is_function apply_heap (Num 5)"
    by (simp_all add: heap_defs apply_heap_def)
  have "invokeImpl answer_fns apply_heap (Ref 0) [KStr ''m''] []
          = answer_fns 0 (Ref 1) [Arg (Ref 0), Fresh []] apply_heap"
    using invokeImpl_outcomes [OF r(1) gm, where a = 1 and b = 2 and g = 0 and fns = answer_fns
        and args = "[]"] nn am
    by blast
  then have five: "invokeImpl answer_fns apply_heap (Ref 0) [KStr ''m''] [] = (Inr (Num 42), apply_heap)"
    by (simp add: answer_fns_def)
  have six: "invokeImpl answer_fns apply_heap (Ref 0) [KStr ''n''] [] = (Inl TypeError, apply_heap)"
    using invokeImpl_outcomes [OF r(2) gn, where a = 3 and fns = answer_fns and args = "[]"] nn an
    by blast
  have seven: "invokeImpl answer_fns apply_heap (Ref 0) [KStr ''k''] [] = (Inl TypeError, apply_heap)"
    using invokeImpl_outcomes [OF r(3) gk, where a = 4 and v = "Num 5" and fns = answer_fns
        and args = "[]"] nn ak
    by blast
  from nn p m k one thrown m' two q n three z four gm am five gn an six gk ak seven
  show ?thesis by blast
qed

text \<open>
  C3 as stated fails on a member that is defined and not callable: line 74 guards the
  call by \<open>func?.\<close>, which stops at \<open>null\<close> and \<open>undefined\<close> only. On \<open>{'a.b': 1}\<close>
  the member under the key \<open>'a.b'\<close> is the number 1, and the call raises.
\<close>

theorem invoke_non_callable_counterexample:
  "get_key flat_heap (Ref 0) (normalizeLastKey [KStr ''a.b'']) Undefined = Inr (Num 1)
   \<and> \<not> is_function flat_heap (Num 1)
   \<and> invokeImpl add_fns flat_heap (Ref 0) [KStr ''a.b''] [] = (Inl TypeError, flat_heap)
   \<and> invoke add_fns flat_heap (Ref 0) (PSeq [KStr ''a.b'']) [] = (Inl TypeError, flat_heap)"
  by (simp add: invoke_defs add_fns_def heap_defs flat_heap_def read_defs)

text \<open>
  C6. \<open>invoke\<close> flattens its rest arguments one level before it passes them on, for
  every form of the path: a key sequence, a number, a symbol, a string that is an own
  property of the object and a string that is tokenized all reach \<open>invokeImpl\<close> with
  the flattened arguments, and \<open>invokeImpl\<close> passes the arguments it received to the
  function it finds, which runs on the resolved parent with them in the store as \<open>invoke\<close>
  received it (a function held by the own \<open>apply\<close> of the member receives them as one
  array). Flattening replaces an argument that is an array by its elements, taken as
  they are, and keeps every other argument; so \<open>[1, 2]\<close> is passed as the two arguments
  1 and 2, and the element of \<open>[[1, 2]]\<close> stays an array. In particular
  \<open>invoke({a: {b: (x, y) => x + y}}, 'a.b', [1, 2])\<close> returns 3, and
  \<open>invoke({}, 'a.b', [])\<close> returns \<open>undefined\<close> and raises nothing.
\<close>

theorem invoke_flattens_arguments:
  "(\<not> is_nullish object \<longrightarrow>
      invoke fns h object (PSeq keys) args = invokeImpl fns h object keys (flat1 h args)
      \<and> invoke fns h object (PKey (KNum i)) args = invokeImpl fns h object [KNum i] (flat1 h args)
      \<and> invoke fns h object (PKey (KSym y)) args = invokeImpl fns h object [KSym y] (flat1 h args)
      \<and> (typeof_is_object h object \<and> hasOwn h object (KStr s) = Inr True
           \<longrightarrow> invoke fns h object (PKey (KStr s)) args
                 = invokeImpl fns h object [KStr s] (flat1 h args))
      \<and> ((\<not> typeof_is_object h object \<or> hasOwn h object (KStr s) = Inr False)
            \<and> toPath s = Inr tokens
           \<longrightarrow> invoke fns h object (PKey (KStr s)) args
                 = invokeImpl fns h object tokens (flat1 h args)))
   \<and> (get h object (butlast keys) object = parent \<and> \<not> is_nullish parent
        \<and> get_key h parent (normalizeLastKey keys) Undefined = Inr (Ref a)
        \<and> kind (h a) = Function f \<and> props (h a) (PName ''apply'') = None
       \<longrightarrow> invokeImpl fns h object keys passed = fns f parent (map Arg passed) h)
   \<and> (get h object (butlast keys) object = parent \<and> \<not> is_nullish parent
        \<and> get_key h parent (normalizeLastKey keys) Undefined = Inr (Ref a)
        \<and> props (h a) (PName ''apply'') = Some (Ref c) \<and> kind (h c) = Function g
       \<longrightarrow> invokeImpl fns h object keys passed = fns g (Ref a) [Arg parent, Fresh passed] h)
   \<and> (\<not> isArray h v \<longrightarrow> flat1 h (v # vs) = v # flat1 h vs)
   \<and> (kind (h b) = Array n \<longrightarrow> flat1 h (Ref b # vs) = array_elems (h b) n @ flat1 h vs)
   \<and> flat1 add_heap [Ref 3] = [Num 1, Num 2]
   \<and> flat1 add_heap [Ref 4] = [Ref 3]
   \<and> invoke add_fns add_heap (Ref 0) (PKey (KStr ''a.b'')) [Ref 3] = (Inr (Num 3), add_heap)
   \<and> invoke add_fns add_heap (Ref 6) (PKey (KStr ''a.b'')) [Ref 5] = (Inr Undefined, add_heap)"
proof -
  have dispatch:
    "invoke fns h object (PSeq keys) args = invokeImpl fns h object keys (flat1 h args)
      \<and> invoke fns h object (PKey (KNum i)) args = invokeImpl fns h object [KNum i] (flat1 h args)
      \<and> invoke fns h object (PKey (KSym y)) args = invokeImpl fns h object [KSym y] (flat1 h args)
      \<and> (typeof_is_object h object \<and> hasOwn h object (KStr s) = Inr True
           \<longrightarrow> invoke fns h object (PKey (KStr s)) args
                 = invokeImpl fns h object [KStr s] (flat1 h args))
      \<and> ((\<not> typeof_is_object h object \<or> hasOwn h object (KStr s) = Inr False)
            \<and> toPath s = Inr tokens
           \<longrightarrow> invoke fns h object (PKey (KStr s)) args
                 = invokeImpl fns h object tokens (flat1 h args))"
    if "\<not> is_nullish object"
    using that by (auto simp: invoke_def own_of_object_def)
  have call: "invokeImpl fns h object keys passed = fns f parent (map Arg passed) h"
    if p: "get h object (butlast keys) object = parent" "\<not> is_nullish parent"
      and m: "get_key h parent (normalizeLastKey keys) Undefined = Inr (Ref a)"
      and k: "kind (h a) = Function f" "props (h a) (PName ''apply'') = None"
  proof -
    have "invokeImpl fns h object keys passed = call_apply fns h (Ref a) parent passed"
      using p m invokeImpl_call [of h object keys "Ref a" fns passed] by simp
    also have "\<dots> = fns f parent (map Arg passed) h"
      using k by (rule call_apply_some [OF apply_target_function])
    finally show ?thesis .
  qed
  have own_call: "invokeImpl fns h object keys passed = fns g (Ref a) [Arg parent, Fresh passed] h"
    if p: "get h object (butlast keys) object = parent" "\<not> is_nullish parent"
      and m: "get_key h parent (normalizeLastKey keys) Undefined = Inr (Ref a)"
      and k: "props (h a) (PName ''apply'') = Some (Ref c)" "kind (h c) = Function g"
  proof -
    have "invokeImpl fns h object keys passed = call_apply fns h (Ref a) parent passed"
      using p m invokeImpl_call [of h object keys "Ref a" fns passed] by simp
    also have "\<dots> = fns g (Ref a) [Arg parent, Fresh passed] h"
      using k by (rule call_apply_some [OF apply_target_own])
    finally show ?thesis .
  qed
  have f3: "flat1 add_heap [Ref 3] = [Num 1, Num 2]"
    by (simp add: flat1_def array_elems_def List.map_filter_def heap_defs add_heap_def read_defs upt_rec)
  have f4: "flat1 add_heap [Ref 4] = [Ref 3]"
    by (simp add: flat1_def array_elems_def List.map_filter_def heap_defs add_heap_def read_defs upt_rec)
  have f5: "flat1 add_heap [Ref 5] = []"
    by (simp add: flat1_def array_elems_def List.map_filter_def heap_defs add_heap_def read_defs)
  have e1: "invoke add_fns add_heap (Ref 0) (PKey (KStr ''a.b'')) [Ref 3] = (Inr (Num 3), add_heap)"
    unfolding invoke_def f3
    by (simp add: invoke_defs add_fns_def toPath_defs heap_defs add_heap_def read_defs)
  have e2: "invoke add_fns add_heap (Ref 6) (PKey (KStr ''a.b'')) [Ref 5] = (Inr Undefined, add_heap)"
    unfolding invoke_def f5
    by (simp add: invoke_defs add_fns_def toPath_defs heap_defs add_heap_def read_defs)
  have one_level: "\<not> isArray h v \<longrightarrow> flat1 h (v # vs) = v # flat1 h vs"
    "kind (h b) = Array n \<longrightarrow> flat1 h (Ref b # vs) = array_elems (h b) n @ flat1 h vs"
    by (simp_all add: flat1_Cons flat_elem_other)
  from dispatch call own_call one_level f3 f4 e1 e2 show ?thesis
    by blast
qed

theorem invoke_flattens_arguments_witness:
  "\<not> is_nullish (Ref 0)
   \<and> get add_heap (Ref 0) (butlast [KStr ''a'', KStr ''b'']) (Ref 0) = Ref 1
   \<and> \<not> is_nullish (Ref 1)
   \<and> get_key add_heap (Ref 1) (normalizeLastKey [KStr ''a'', KStr ''b'']) Undefined = Inr (Ref 2)
   \<and> kind (add_heap 2) = Function 0 \<and> props (add_heap 2) (PName ''apply'') = None
   \<and> \<not> isArray add_heap (Num 5) \<and> kind (add_heap 3) = Array 2 \<and> kind (add_heap 4) = Array 1
   \<and> flat1 add_heap [Num 5, Ref 3, Ref 4] = [Num 5, Num 1, Num 2, Ref 3]
   \<and> invoke add_fns add_heap (Ref 0) (PSeq [KStr ''a'', KStr ''b'']) [Num 5, Ref 3, Ref 4]
       = add_fns 0 (Ref 1) [Arg (Num 5), Arg (Num 1), Arg (Num 2), Arg (Ref 3)] add_heap
   \<and> invoke add_fns add_heap (Ref 0) (PSeq [KStr ''a'', KStr ''b'']) [Num 5, Ref 3, Ref 4]
       = (Inr (Num 6), add_heap)
   \<and> \<not> typeof_is_object add_heap (Num 7) \<and> toPath ''a.b'' = Inr [KStr ''a'', KStr ''b'']
   \<and> invoke add_fns add_heap (Num 7) (PKey (KStr ''a.b'')) [Ref 3]
       = invokeImpl add_fns add_heap (Num 7) [KStr ''a'', KStr ''b''] [Num 1, Num 2]
   \<and> typeof_is_object flat_heap (Ref 0) \<and> hasOwn flat_heap (Ref 0) (KStr ''a.b'') = Inr True
   \<and> invoke add_fns flat_heap (Ref 0) (PKey (KStr ''a.b'')) [Num 1]
       = invokeImpl add_fns flat_heap (Ref 0) [KStr ''a.b''] (flat1 flat_heap [Num 1])
   \<and> get apply_heap (Ref 0) (butlast [KStr ''m'']) (Ref 0) = Ref 0
   \<and> get_key apply_heap (Ref 0) (normalizeLastKey [KStr ''m'']) Undefined = Inr (Ref 1)
   \<and> props (apply_heap 1) (PName ''apply'') = Some (Ref 2) \<and> kind (apply_heap 2) = Function 0
   \<and> invokeImpl answer_fns apply_heap (Ref 0) [KStr ''m''] [Num 1, Num 2]
       = answer_fns 0 (Ref 1) [Arg (Ref 0), Fresh [Num 1, Num 2]] apply_heap"
proof -
  have mp: "get apply_heap (Ref 0) (butlast [KStr ''m'']) (Ref 0) = Ref 0"
    by (simp add: get_def)
  have mm: "get_key apply_heap (Ref 0) (normalizeLastKey [KStr ''m'']) Undefined = Inr (Ref 1)"
    by (simp add: get_key_def normalizeLastKey_def last_elem_def heap_defs apply_heap_def read_defs)
  have mk: "props (apply_heap 1) (PName ''apply'') = Some (Ref 2)" "kind (apply_heap 2) = Function 0"
    by (simp_all add: heap_defs apply_heap_def)
  note on_apply = invoke_flattens_arguments
    [where object = "Ref 0" and h = apply_heap and keys = "[KStr ''m'']" and parent = "Ref 0"
       and a = 1 and c = 2 and g = 0 and fns = answer_fns and passed = "[Num 1, Num 2]"]
  have o: "\<not> is_nullish (Ref 0)" and q: "\<not> is_nullish (Ref 1)" and o7: "\<not> is_nullish (Num 7)"
    by (simp_all add: is_nullish_def)
  have p: "get add_heap (Ref 0) (butlast [KStr ''a'', KStr ''b'']) (Ref 0) = Ref 1"
    by (simp add: get_def heap_defs add_heap_def read_defs)
  have m: "get_key add_heap (Ref 1) (normalizeLastKey [KStr ''a'', KStr ''b'']) Undefined = Inr (Ref 2)"
    by (simp add: get_key_def normalizeLastKey_def last_elem_def heap_defs add_heap_def read_defs)
  have k: "kind (add_heap 2) = Function 0" "props (add_heap 2) (PName ''apply'') = None"
    "kind (add_heap 3) = Array 2" "kind (add_heap 4) = Array 1"
    by (simp_all add: heap_defs add_heap_def)
  have n: "\<not> isArray add_heap (Num 5)"
    by simp
  have e3: "array_elems (add_heap 3) 2 = [Num 1, Num 2]"
    by (simp add: array_elems_def List.map_filter_def heap_defs add_heap_def read_defs upt_rec)
  have e4: "array_elems (add_heap 4) 1 = [Ref 3]"
    by (simp add: array_elems_def List.map_filter_def heap_defs add_heap_def read_defs upt_rec)
  have t7: "\<not> typeof_is_object add_heap (Num 7)" by simp
  have tp: "toPath ''a.b'' = Inr [KStr ''a'', KStr ''b'']" by (simp add: toPath_defs)
  have t1: "typeof_is_object flat_heap (Ref 0)" by (simp add: heap_defs flat_heap_def)
  have h1: "hasOwn flat_heap (Ref 0) (KStr ''a.b'') = Inr True"
    by (simp add: heap_defs flat_heap_def read_defs)
  note call = invoke_flattens_arguments
    [where object = "Ref 0" and h = add_heap and keys = "[KStr ''a'', KStr ''b'']"
       and parent = "Ref 1" and a = 2 and f = 0 and fns = add_fns
       and args = "[Num 5, Ref 3, Ref 4]" and passed = "flat1 add_heap [Num 5, Ref 3, Ref 4]"
       and v = "Num 5" and vs = "[Ref 3, Ref 4]" and b = 3 and n = 2]
  note inner = invoke_flattens_arguments
    [where h = add_heap and vs = "[Ref 4]" and b = 3 and n = 2]
  note last_one = invoke_flattens_arguments
    [where h = add_heap and vs = "[]" and b = 4 and n = 1]
  note on_number = invoke_flattens_arguments
    [where object = "Num 7" and h = add_heap and fns = add_fns and s = "''a.b''"
       and tokens = "[KStr ''a'', KStr ''b'']" and args = "[Ref 3]"]
  note on_own = invoke_flattens_arguments
    [where object = "Ref 0" and h = flat_heap and fns = add_fns and s = "''a.b''"
       and args = "[Num 1]"]
  from last_one k e4 have "flat1 add_heap [Ref 4] = [Ref 3] @ flat1 add_heap []"
    by simp
  then have l4: "flat1 add_heap [Ref 4] = [Ref 3]"
    by (simp add: flat1_def)
  from inner k e3 l4 have l3: "flat1 add_heap [Ref 3, Ref 4] = [Num 1, Num 2, Ref 3]"
    by simp
  from call n l3 have f: "flat1 add_heap [Num 5, Ref 3, Ref 4] = [Num 5, Num 1, Num 2, Ref 3]"
    by simp
  from call o
  have "invoke add_fns add_heap (Ref 0) (PSeq [KStr ''a'', KStr ''b'']) [Num 5, Ref 3, Ref 4]
       = invokeImpl add_fns add_heap (Ref 0) [KStr ''a'', KStr ''b'']
           (flat1 add_heap [Num 5, Ref 3, Ref 4])"
    by blast
  also from call p q m k
  have "\<dots> = add_fns 0 (Ref 1) (map Arg (flat1 add_heap [Num 5, Ref 3, Ref 4])) add_heap"
    by blast
  finally have c: "invoke add_fns add_heap (Ref 0) (PSeq [KStr ''a'', KStr ''b'']) [Num 5, Ref 3, Ref 4]
       = add_fns 0 (Ref 1) [Arg (Num 5), Arg (Num 1), Arg (Num 2), Arg (Ref 3)] add_heap"
    unfolding f by simp
  then have r: "invoke add_fns add_heap (Ref 0) (PSeq [KStr ''a'', KStr ''b'']) [Num 5, Ref 3, Ref 4]
       = (Inr (Num 6), add_heap)"
    by (simp add: add_fns_def)
  from on_number o7 t7 tp
  have "invoke add_fns add_heap (Num 7) (PKey (KStr ''a.b'')) [Ref 3]
       = invokeImpl add_fns add_heap (Num 7) [KStr ''a'', KStr ''b''] (flat1 add_heap [Ref 3])"
    by blast
  moreover from on_number have "flat1 add_heap [Ref 3] = [Num 1, Num 2]"
    by blast
  ultimately have s7: "invoke add_fns add_heap (Num 7) (PKey (KStr ''a.b'')) [Ref 3]
       = invokeImpl add_fns add_heap (Num 7) [KStr ''a'', KStr ''b''] [Num 1, Num 2]"
    by simp
  from on_own o t1 h1
  have s1: "invoke add_fns flat_heap (Ref 0) (PKey (KStr ''a.b'')) [Num 1]
       = invokeImpl add_fns flat_heap (Ref 0) [KStr ''a.b''] (flat1 flat_heap [Num 1])"
    by blast
  from on_apply o mp mm mk
  have sm: "invokeImpl answer_fns apply_heap (Ref 0) [KStr ''m''] [Num 1, Num 2]
       = answer_fns 0 (Ref 1) [Arg (Ref 0), Fresh [Num 1, Num 2]] apply_heap"
    by blast
  from o p q m k n f c r t7 tp s7 t1 h1 s1 mp mm mk sm show ?thesis by blast
qed

text \<open>
  C7, as amended. For an object that is not \<open>null\<close> or \<open>undefined\<close> and a string path:
  if \<open>typeof object === 'object'\<close> and the string is an own property name of the
  object, \<open>invoke\<close> takes the string as a sequence of that one token; in every other
  case (the string is no own property, or the object is a function or a primitive) it
  tokenizes the string by \<open>toPath\<close>.
\<close>

theorem invoke_own_property_policy:
  assumes "\<not> is_nullish object"
  shows "(typeof_is_object h object \<and> hasOwn h object (KStr s) = Inr True
            \<longrightarrow> invoke fns h object (PKey (KStr s)) args
                  = invokeImpl fns h object [KStr s] (flat1 h args))
       \<and> (\<not> typeof_is_object h object \<or> hasOwn h object (KStr s) = Inr False
            \<longrightarrow> invoke fns h object (PKey (KStr s)) args
                  = (case toPath s of
                       Inl e \<Rightarrow> (Inl e, h)
                     | Inr keys \<Rightarrow> invokeImpl fns h object keys (flat1 h args)))"
  using assms by (auto simp: invoke_def own_of_object_def)

theorem invoke_own_property_policy_witness:
  "\<not> is_nullish (Ref 0)
   \<and> typeof_is_object flat_heap (Ref 0) \<and> hasOwn flat_heap (Ref 0) (KStr ''a.b'') = Inr True
   \<and> invoke add_fns flat_heap (Ref 0) (PKey (KStr ''a.b'')) []
       = invokeImpl add_fns flat_heap (Ref 0) [KStr ''a.b''] (flat1 flat_heap [])
   \<and> hasOwn add_heap (Ref 0) (KStr ''a.b'') = Inr False
   \<and> toPath ''a.b'' = Inr [KStr ''a'', KStr ''b'']
   \<and> invoke add_fns add_heap (Ref 0) (PKey (KStr ''a.b'')) [Ref 3]
       = invokeImpl add_fns add_heap (Ref 0) [KStr ''a'', KStr ''b''] (flat1 add_heap [Ref 3])
   \<and> \<not> typeof_is_object fn_heap (Ref 0)
   \<and> invoke add_fns fn_heap (Ref 0) (PKey (KStr ''a.b'')) []
       = invokeImpl add_fns fn_heap (Ref 0) [KStr ''a'', KStr ''b''] (flat1 fn_heap [])"
proof -
  have o: "\<not> is_nullish (Ref 0)" by (simp add: is_nullish_def)
  have t1: "typeof_is_object flat_heap (Ref 0)" by (simp add: heap_defs flat_heap_def add_heap_def fn_heap_def)
  have h1: "hasOwn flat_heap (Ref 0) (KStr ''a.b'') = Inr True" by (simp add: heap_defs flat_heap_def add_heap_def fn_heap_def read_defs)
  have h2: "hasOwn add_heap (Ref 0) (KStr ''a.b'') = Inr False" by (simp add: heap_defs flat_heap_def add_heap_def fn_heap_def read_defs)
  have t3: "\<not> typeof_is_object fn_heap (Ref 0)" by (simp add: heap_defs flat_heap_def add_heap_def fn_heap_def)
  have tp: "toPath ''a.b'' = Inr [KStr ''a'', KStr ''b'']" by (simp add: toPath_defs)
  have a: "invoke add_fns flat_heap (Ref 0) (PKey (KStr ''a.b'')) []
       = invokeImpl add_fns flat_heap (Ref 0) [KStr ''a.b''] (flat1 flat_heap [])"
    using invoke_own_property_policy [OF o, of flat_heap "''a.b''" add_fns "[]"] t1 h1 by blast
  have b: "invoke add_fns add_heap (Ref 0) (PKey (KStr ''a.b'')) [Ref 3]
       = invokeImpl add_fns add_heap (Ref 0) [KStr ''a'', KStr ''b''] (flat1 add_heap [Ref 3])"
    using invoke_own_property_policy [OF o, of add_heap "''a.b''" add_fns "[Ref 3]"] h2 tp by simp
  have c: "invoke add_fns fn_heap (Ref 0) (PKey (KStr ''a.b'')) []
       = invokeImpl add_fns fn_heap (Ref 0) [KStr ''a'', KStr ''b''] (flat1 fn_heap [])"
    using invoke_own_property_policy [OF o, of fn_heap "''a.b''" add_fns "[]"] t3 tp by simp
  from o t1 h1 h2 t3 tp a b c show ?thesis by blast
qed

text \<open>
  C7 as stated fails on a function object: line 35 asks for \<open>typeof object === 'object'\<close>
  before the own-property test. A function with the own property \<open>'a.b'\<close> has its path
  \<open>'a.b'\<close> tokenized into \<open>['a', 'b']\<close>, and the member under \<open>'a.b'\<close> is not invoked.
\<close>

theorem invoke_own_property_counterexample:
  "\<not> is_nullish (Ref 0)
   \<and> hasOwn fn_heap (Ref 0) (KStr ''a.b'') = Inr True
   \<and> invokeImpl add_fns fn_heap (Ref 0) [KStr ''a.b''] [Num 3, Num 4] = (Inr (Num 7), fn_heap)
   \<and> invoke add_fns fn_heap (Ref 0) (PKey (KStr ''a.b'')) [Num 3, Num 4] = (Inr Undefined, fn_heap)"
  by (simp add: invoke_defs add_fns_def toPath_defs heap_defs fn_heap_def read_defs)

text \<open>
  C8, as amended. \<open>invokeImpl\<close> normalises the last token of the sequence before the
  lookup: when its \<open>valueOf()\<close> is a number, the token becomes the key string \<open>toKey\<close>
  gives for that number; otherwise it becomes \<open>String(token)\<close>, the string itself for a
  string and \<open>Symbol(description)\<close> for a symbol; so a numeric last token and the string
  \<open>toKey\<close> gives for it invoke the same member. The member is then looked up by
  \<open>get(parent, key)\<close> with that key as a path: it is the property of the parent under
  that key when that property is defined; when it is not and the key is no deep key,
  there is no member and \<open>invokeImpl\<close> returns \<open>undefined\<close>; when it is not and the key
  is a deep key, the member is what the tokens of the key resolve to on the parent.
\<close>

theorem invokeImpl_last_key_normalised:
  "(valueOf key = Num n \<longrightarrow> normalizeLastKey (keys @ [key]) = KStr (toKey n))
   \<and> ((\<forall>m. valueOf key \<noteq> Num m) \<longrightarrow> normalizeLastKey (keys @ [key]) = KStr (toString (Some key)))
   \<and> normalizeLastKey (keys @ [KNum n]) = KStr (toKey n)
   \<and> normalizeLastKey (keys @ [KStr s]) = KStr s
   \<and> normalizeLastKey (keys @ [KSym (Symbol i d)]) = KStr (''Symbol('' @ d @ '')'')
   \<and> invokeImpl fns h object (keys @ [KNum n]) args
        = invokeImpl fns h object (keys @ [KStr (toKey n)]) args
   \<and> (get h object (butlast path) object = parent \<and> \<not> is_nullish parent
        \<and> normalizeLastKey path = KStr k \<and> getProp h parent (KStr k) = Inr v
       \<longrightarrow> (v \<noteq> Undefined
              \<longrightarrow> invokeImpl fns h object path args = call_apply fns h v parent args)
           \<and> (v = Undefined \<and> \<not> isDeepKey k
              \<longrightarrow> invokeImpl fns h object path args = (Inr Undefined, h))
           \<and> (v = Undefined \<and> isDeepKey k \<and> toPath k = Inr tokens
              \<longrightarrow> invokeImpl fns h object path args
                    = call_apply fns h (get h parent tokens Undefined) parent args))"
proof -
  have a: "valueOf key = Num n \<longrightarrow> normalizeLastKey (keys @ [key]) = KStr (toKey n)"
    by (cases key) (simp_all add: normalizeLastKey_snoc)
  have b: "(\<forall>m. valueOf key \<noteq> Num m) \<longrightarrow> normalizeLastKey (keys @ [key]) = KStr (toString (Some key))"
    by (cases key) (simp_all add: normalizeLastKey_snoc)
  have c: "normalizeLastKey (keys @ [KNum n]) = KStr (toKey n)"
    by (simp add: normalizeLastKey_snoc)
  have d: "normalizeLastKey (keys @ [KStr s]) = KStr s"
    by (simp add: normalizeLastKey_snoc)
  have e: "normalizeLastKey (keys @ [KSym (Symbol i d)]) = KStr (''Symbol('' @ d @ '')'')"
    by (simp add: normalizeLastKey_snoc)
  have f: "invokeImpl fns h object (keys @ [KNum n]) args
        = invokeImpl fns h object (keys @ [KStr (toKey n)]) args"
  proof -
    have eq: "normalizeLastKey (keys @ [KNum n]) = normalizeLastKey (keys @ [KStr (toKey n)])"
      by (simp add: normalizeLastKey_snoc)
    show ?thesis
      unfolding invokeImpl_def butlast_snoc eq by (rule refl)
  qed
  have lookup:
    "(v \<noteq> Undefined
        \<longrightarrow> invokeImpl fns h object path args = call_apply fns h v parent args)
     \<and> (v = Undefined \<and> \<not> isDeepKey k
        \<longrightarrow> invokeImpl fns h object path args = (Inr Undefined, h))
     \<and> (v = Undefined \<and> isDeepKey k \<and> toPath k = Inr tokens
        \<longrightarrow> invokeImpl fns h object path args
              = call_apply fns h (get h parent tokens Undefined) parent args)"
    if p: "get h object (butlast path) object = parent" "\<not> is_nullish parent"
      and k: "normalizeLastKey path = KStr k"
      and v: "getProp h parent (KStr k) = Inr v"
  proof -
    have "get_key h parent (KStr k) Undefined = Inr v" if "v \<noteq> Undefined"
      using that p v by (simp add: get_key_def)
    moreover have "get_key h parent (KStr k) Undefined = Inr Undefined"
      if "v = Undefined" "\<not> isDeepKey k"
      using that p v by (simp add: get_key_def)
    moreover have "get_key h parent (KStr k) Undefined = Inr (get h parent tokens Undefined)"
      if "v = Undefined" "isDeepKey k" "toPath k = Inr tokens"
      using that p v by (simp add: get_key_def)
    ultimately show ?thesis
      using p k invokeImpl_call [of h object path _ fns args]
        call_apply_nullish [of Undefined fns h parent args]
      by (auto simp: is_nullish_def)
  qed
  from a b c d e f lookup show ?thesis
    by blast
qed

theorem invokeImpl_last_key_normalised_witness:
  "valueOf (KNum 1) = Num 1
   \<and> normalizeLastKey ([KStr ''xs''] @ [KNum 1]) = KStr ''1''
   \<and> (\<forall>m. valueOf (KSym (Symbol 0 ''id'')) \<noteq> Num m)
   \<and> normalizeLastKey ([] @ [KSym (Symbol 0 ''id'')]) = KStr ''Symbol(id)''
   \<and> get add_heap (Ref 0) (butlast [KStr ''a'', KStr ''b'']) (Ref 0) = Ref 1
   \<and> \<not> is_nullish (Ref 1)
   \<and> normalizeLastKey [KStr ''a'', KStr ''b''] = KStr ''b''
   \<and> getProp add_heap (Ref 1) (KStr ''b'') = Inr (Ref 2) \<and> Ref 2 \<noteq> Undefined
   \<and> invokeImpl add_fns add_heap (Ref 0) [KStr ''a'', KStr ''b''] [Num 1, Num 2]
        = call_apply add_fns add_heap (Ref 2) (Ref 1) [Num 1, Num 2]
   \<and> normalizeLastKey [KStr ''a'', KStr ''c''] = KStr ''c''
   \<and> getProp add_heap (Ref 1) (KStr ''c'') = Inr Undefined \<and> \<not> isDeepKey ''c''
   \<and> invokeImpl add_fns add_heap (Ref 0) [KStr ''a'', KStr ''c''] [Num 1, Num 2]
        = (Inr Undefined, add_heap)
   \<and> get add_heap (Ref 0) (butlast [KStr ''a.b'']) (Ref 0) = Ref 0
   \<and> \<not> is_nullish (Ref 0)
   \<and> normalizeLastKey [KStr ''a.b''] = KStr ''a.b''
   \<and> getProp add_heap (Ref 0) (KStr ''a.b'') = Inr Undefined \<and> isDeepKey ''a.b''
   \<and> toPath ''a.b'' = Inr [KStr ''a'', KStr ''b'']
   \<and> invokeImpl add_fns add_heap (Ref 0) [KStr ''a.b''] [Num 1, Num 2]
        = call_apply add_fns add_heap (get add_heap (Ref 0) [KStr ''a'', KStr ''b''] Undefined)
            (Ref 0) [Num 1, Num 2]"
proof -
  have v: "valueOf (KNum 1) = Num 1" by simp
  have w: "\<forall>m. valueOf (KSym (Symbol 0 ''id'')) \<noteq> Num m" by simp
  have nn: "\<not> is_nullish (Ref 1)" "\<not> is_nullish (Ref 0)" "Ref 2 \<noteq> Undefined"
    by (simp_all add: is_nullish_def)
  have p: "get add_heap (Ref 0) (butlast [KStr ''a'', KStr ''b'']) (Ref 0) = Ref 1"
    by (simp add: get_def heap_defs add_heap_def read_defs)
  have p': "get add_heap (Ref 0) (butlast [KStr ''a'', KStr ''c'']) (Ref 0) = Ref 1"
    by (simp add: get_def heap_defs add_heap_def read_defs)
  have q: "get add_heap (Ref 0) (butlast [KStr ''a.b'']) (Ref 0) = Ref 0"
    by (simp add: get_def)
  have kb: "normalizeLastKey [KStr ''a'', KStr ''b''] = KStr ''b''"
    and kc: "normalizeLastKey [KStr ''a'', KStr ''c''] = KStr ''c''"
    and kd: "normalizeLastKey [KStr ''a.b''] = KStr ''a.b''"
    by (simp_all add: normalizeLastKey_def last_elem_def)
  have gb: "getProp add_heap (Ref 1) (KStr ''b'') = Inr (Ref 2)"
    and gc: "getProp add_heap (Ref 1) (KStr ''c'') = Inr Undefined"
    and gd: "getProp add_heap (Ref 0) (KStr ''a.b'') = Inr Undefined"
    by (simp_all add: heap_defs add_heap_def read_defs)
  have dk: "\<not> isDeepKey ''c''" "isDeepKey ''a.b''"
    by (simp_all add: isDeepKey_def)
  have tp: "toPath ''a.b'' = Inr [KStr ''a'', KStr ''b'']"
    by (simp add: toPath_defs)
  have k1: "toKey 1 = ''1''" by (simp add: toKey_def show_int_def show_nat.simps)
  note num = invokeImpl_last_key_normalised
    [where key = "KNum 1" and n = 1 and keys = "[KStr ''xs'']"]
  note sym = invokeImpl_last_key_normalised
    [where key = "KSym (Symbol 0 ''id'')" and keys = "[]" and i = 0 and d = "''id''"]
  note found = invokeImpl_last_key_normalised
    [where h = add_heap and object = "Ref 0" and path = "[KStr ''a'', KStr ''b'']"
       and parent = "Ref 1" and k = "''b''" and v = "Ref 2" and fns = add_fns
       and args = "[Num 1, Num 2]"]
  note absent = invokeImpl_last_key_normalised
    [where h = add_heap and object = "Ref 0" and path = "[KStr ''a'', KStr ''c'']"
       and parent = "Ref 1" and k = "''c''" and v = Undefined and fns = add_fns
       and args = "[Num 1, Num 2]"]
  note deep = invokeImpl_last_key_normalised
    [where h = add_heap and object = "Ref 0" and path = "[KStr ''a.b'']"
       and parent = "Ref 0" and k = "''a.b''" and v = Undefined
       and tokens = "[KStr ''a'', KStr ''b'']" and fns = add_fns and args = "[Num 1, Num 2]"]
  from num v k1 have one: "normalizeLastKey ([KStr ''xs''] @ [KNum 1]) = KStr ''1''"
    by simp
  from sym w have two: "normalizeLastKey ([] @ [KSym (Symbol 0 ''id'')]) = KStr ''Symbol(id)''"
    by simp
  from found p nn kb gb
  have three: "invokeImpl add_fns add_heap (Ref 0) [KStr ''a'', KStr ''b''] [Num 1, Num 2]
        = call_apply add_fns add_heap (Ref 2) (Ref 1) [Num 1, Num 2]"
    by blast
  from absent p' nn kc gc dk
  have four: "invokeImpl add_fns add_heap (Ref 0) [KStr ''a'', KStr ''c''] [Num 1, Num 2]
        = (Inr Undefined, add_heap)"
    by blast
  from deep q nn kd gd dk tp
  have five: "invokeImpl add_fns add_heap (Ref 0) [KStr ''a.b''] [Num 1, Num 2]
        = call_apply add_fns add_heap (get add_heap (Ref 0) [KStr ''a'', KStr ''b''] Undefined)
            (Ref 0) [Num 1, Num 2]"
    by blast
  from v w nn p q kb kc kd gb gc gd dk tp one two three four five show ?thesis by blast
qed

text \<open>
  C8 as stated fails in its last part on a last token that is a deep key of which the
  parent has no property: on \<open>{a: {b: (x, y) => x + y}}\<close> the sequence \<open>['a.b']\<close> has
  the parent \<open>object\<close> and the normalised key \<open>'a.b'\<close>; no member is stored under that
  key, and a call of the \<open>undefined\<close> read there would return \<open>undefined\<close>; \<open>get\<close>
  resolves the key as the path \<open>a\<close>, \<open>b\<close>, and \<open>invokeImpl\<close> calls the function and
  returns 3.
\<close>

theorem invokeImpl_lookup_counterexample:
  "get add_heap (Ref 0) (butlast [KStr ''a.b'']) (Ref 0) = Ref 0
   \<and> normalizeLastKey [KStr ''a.b''] = KStr ''a.b''
   \<and> hasOwn add_heap (Ref 0) (KStr ''a.b'') = Inr False
   \<and> getProp add_heap (Ref 0) (KStr ''a.b'') = Inr Undefined
   \<and> call_apply add_fns add_heap Undefined (Ref 0) [Num 1, Num 2] = (Inr Undefined, add_heap)
   \<and> invokeImpl add_fns add_heap (Ref 0) [KStr ''a.b''] [Num 1, Num 2] = (Inr (Num 3), add_heap)
   \<and> invoke add_fns add_heap (Ref 0) (PSeq [KStr ''a.b'']) [Num 1, Num 2] = (Inr (Num 3), add_heap)"
  by (simp add: invoke_defs add_fns_def toPath_defs heap_defs add_heap_def read_defs)

text \<open>
  C10. For an object that is not \<open>null\<close> or \<open>undefined\<close>, \<open>invoke(object, [])\<close> does not
  simply return \<open>undefined\<close>: the missing last token becomes the string \<open>"undefined"\<close>,
  the parent is the object itself, and the member read on the object under the name
  \<open>undefined\<close> is called; an own property of that name holding a function (with no own \<open>apply\<close> to
  hide the built-in one) is invoked with the object as receiver and the flattened
  arguments.
\<close>

theorem invoke_empty_sequence:
  assumes "\<not> is_nullish object"
  shows "normalizeLastKey [] = KStr ''undefined''
       \<and> get h object (butlast []) object = object
       \<and> invoke fns h object (PSeq []) args =
           call_apply fns h (get h object [KStr ''undefined''] Undefined) object (flat1 h args)
       \<and> (object = Ref a \<and> props (h a) (PName ''undefined'') = Some (Ref b)
            \<and> kind (h b) = Function f \<and> props (h b) (PName ''apply'') = None
           \<longrightarrow> invoke fns h object (PSeq []) args = fns f object (map Arg (flat1 h args)) h)"
proof -
  have n: "normalizeLastKey [] = KStr ''undefined''"
    by (simp add: normalizeLastKey_def last_elem_def)
  have p: "get h object (butlast []) object = object"
    by (simp add: get_def)
  have p': "get h object [] object = object"
    by (simp add: get_def)
  have i: "invoke fns h object (PSeq []) args =
           call_apply fns h (get h object [KStr ''undefined''] Undefined) object (flat1 h args)"
  proof -
    have "\<not> isDeepKey ''undefined''"
      by (simp add: isDeepKey_def)
    then have "get_key h object (KStr ''undefined'') Undefined
        = Inr (get h object [KStr ''undefined''] Undefined)"
      by (rule get_key_plain)
    with assms invokeImpl_call [of h object "[]" _ fns "flat1 h args"] show ?thesis
      by (simp add: invoke_PSeq n p')
  qed
  have "get h (Ref a) [KStr ''undefined''] Undefined = Ref b"
    if "props (h a) (PName ''undefined'') = Some (Ref b)"
    using that
    by (auto simp: get_def is_nullish_def obj_get_def lookup_def split: objkind.splits)
  with n p i call_apply_some [OF apply_target_function] show ?thesis by auto
qed

theorem invoke_empty_sequence_witness:
  "\<not> is_nullish (Ref 0)
   \<and> props (undef_heap 0) (PName ''undefined'') = Some (Ref 1)
   \<and> kind (undef_heap 1) = Function 0 \<and> props (undef_heap 1) (PName ''apply'') = None
   \<and> invoke add_fns undef_heap (Ref 0) (PSeq []) [Num 3, Num 4] = (Inr (Num 7), undef_heap)"
proof -
  have o: "\<not> is_nullish (Ref 0)" by (simp add: is_nullish_def)
  have u: "props (undef_heap 0) (PName ''undefined'') = Some (Ref 1)" by (simp add: heap_defs undef_heap_def)
  have k: "kind (undef_heap 1) = Function 0" "props (undef_heap 1) (PName ''apply'') = None"
    by (simp_all add: heap_defs undef_heap_def)
  have f: "flat1 undef_heap [Num 3, Num 4] = [Num 3, Num 4]" by (simp add: flat1_def)
  from invoke_empty_sequence [OF o, of undef_heap add_fns "[Num 3, Num 4]" 0 1 0] u k
  have "invoke add_fns undef_heap (Ref 0) (PSeq []) [Num 3, Num 4]
          = add_fns 0 (Ref 0) (map Arg (flat1 undef_heap [Num 3, Num 4])) undef_heap"
    by blast
  then have "invoke add_fns undef_heap (Ref 0) (PSeq []) [Num 3, Num 4] = (Inr (Num 7), undef_heap)"
    unfolding f by (simp add: add_fns_def)
  with o u k show ?thesis by blast
qed

text \<open>
  C9, as amended. \<open>has\<close> does not write: in store-passing form it returns the store it
  received, with the result of \<open>has\<close>, so that running it again on the store it left
  gives the same. \<open>invoke\<close> makes no write of its own. On a \<open>null\<close> or \<open>undefined\<close>
  object, on a resolved parent or a member that is \<open>null\<close> or \<open>undefined\<close>, and on a
  member of which no function can be called, it leaves the store as it was. When the call
  of line 74 on the member found at the path reaches a function, the outcome and the
  store after \<open>invoke\<close> are exactly what that function leaves, run on the unchanged
  store. With functions that leave the store as it is, \<open>invoke\<close> leaves it as it is and,
  run again on the same inputs, gives the same result.
\<close>

theorem invoke_store_frame:
  "(is_nullish object \<longrightarrow> invoke fns h object p args = (Inr Undefined, h))
   \<and> (\<not> is_nullish object \<longrightarrow> (\<exists>keys. resolvedKeys h object p = Inr keys))
   \<and> (\<not> is_nullish object \<and> resolvedKeys h object p = Inr keys
        \<and> get h object (butlast keys) object = parent
       \<longrightarrow> (is_nullish parent \<longrightarrow> invoke fns h object p args = (Inr Undefined, h))
           \<and> (\<exists>func. get_key h parent (normalizeLastKey keys) Undefined = Inr func)
           \<and> (\<not> is_nullish parent
                \<and> get_key h parent (normalizeLastKey keys) Undefined = Inr func
               \<longrightarrow> (is_nullish func \<longrightarrow> invoke fns h object p args = (Inr Undefined, h))
                   \<and> (\<not> is_nullish func \<and> apply_target h func parent (flat1 h args) = None
                       \<longrightarrow> invoke fns h object p args = (Inl TypeError, h))
                   \<and> (apply_target h func parent (flat1 h args) = Some (f, this, passed)
                       \<longrightarrow> invoke fns h object p args = fns f this passed h)))
   \<and> ((\<forall>f this passed s. snd (fns f this passed s) = s)
       \<longrightarrow> snd (invoke fns h object p args) = h
           \<and> invoke fns (snd (invoke fns h object p args)) object p args
               = invoke fns h object p args)
   \<and> has_st h target q = (has h target q, h)
   \<and> has_st (snd (has_st h target q)) target q = has_st h target q"
proof -
  have none: "invoke fns h object p args = (Inr Undefined, h)" if "is_nullish object"
    using that by (simp add: invoke_def)
  have keys: "\<exists>keys. resolvedKeys h object p = Inr keys" if "\<not> is_nullish object"
    using that by (rule resolvedKeys_total)
  have impl: "invoke fns h object p args = invokeImpl fns h object keys (flat1 h args)"
    if "\<not> is_nullish object" "resolvedKeys h object p = Inr keys"
    using that invoke_resolvedKeys [of object fns h p args] by simp
  have at_parent:
    "(is_nullish parent \<longrightarrow> invoke fns h object p args = (Inr Undefined, h))
     \<and> (\<exists>func. get_key h parent (normalizeLastKey keys) Undefined = Inr func)
     \<and> (\<not> is_nullish parent
          \<and> get_key h parent (normalizeLastKey keys) Undefined = Inr func
         \<longrightarrow> (is_nullish func \<longrightarrow> invoke fns h object p args = (Inr Undefined, h))
             \<and> (\<not> is_nullish func \<and> apply_target h func parent (flat1 h args) = None
                 \<longrightarrow> invoke fns h object p args = (Inl TypeError, h))
             \<and> (apply_target h func parent (flat1 h args) = Some (f, this, passed)
                 \<longrightarrow> invoke fns h object p args = fns f this passed h))"
    if o: "\<not> is_nullish object" and k: "resolvedKeys h object p = Inr keys"
      and p: "get h object (butlast keys) object = parent"
  proof -
    note i = impl [OF o k]
    have a: "invoke fns h object p args = (Inr Undefined, h)" if "is_nullish parent"
      using that i p invokeImpl_nullish [of h object keys fns "flat1 h args"] by simp
    have c: "invoke fns h object p args = call_apply fns h func parent (flat1 h args)"
      if "\<not> is_nullish parent" "get_key h parent (normalizeLastKey keys) Undefined = Inr func"
      using that i p invokeImpl_call [of h object keys func fns "flat1 h args"] by simp
    show ?thesis
      using a c get_key_total [of h parent "normalizeLastKey keys" Undefined]
        call_apply_nullish [of func fns h parent "flat1 h args"]
        call_apply_none [of func h parent "flat1 h args" fns]
        call_apply_some [of h func parent "flat1 h args" f this passed fns]
      by auto
  qed
  have pure: "snd (invoke fns h object p args) = h"
    if "\<forall>f this passed s. snd (fns f this passed s) = s"
    using that invoke_frame [of fns h object p args] by metis
  have again: "invoke fns (snd (invoke fns h object p args)) object p args
      = invoke fns h object p args"
    if "\<forall>f this passed s. snd (fns f this passed s) = s"
    using pure [OF that] by simp
  have st: "has_st h target q = (has h target q, h)"
    by (rule has_st_has)
  have st_again: "has_st (snd (has_st h target q)) target q = has_st h target q"
    by (simp add: has_st_has)
  show ?thesis
    by (intro conjI impI) (use none keys at_parent pure again st st_again in blast)+
qed

theorem invoke_store_frame_witness:
  "(\<forall>f this passed s. snd (add_fns f this passed s) = s)
   \<and> snd (invoke add_fns add_heap (Ref 0) (PKey (KStr ''a.b'')) [Ref 3]) = add_heap
   \<and> invoke add_fns (snd (invoke add_fns add_heap (Ref 0) (PKey (KStr ''a.b'')) [Ref 3]))
        (Ref 0) (PKey (KStr ''a.b'')) [Ref 3]
      = invoke add_fns add_heap (Ref 0) (PKey (KStr ''a.b'')) [Ref 3]
   \<and> is_nullish Null
   \<and> invoke next_fns counter_heap Null (PKey (KStr ''next'')) [] = (Inr Undefined, counter_heap)
   \<and> \<not> is_nullish (Ref 0)
   \<and> resolvedKeys counter_heap (Ref 0) (PKey (KStr ''next'')) = Inr [KStr ''next'']
   \<and> get counter_heap (Ref 0) (butlast [KStr ''next'']) (Ref 0) = Ref 0
   \<and> get_key counter_heap (Ref 0) (normalizeLastKey [KStr ''next'']) Undefined = Inr (Ref 1)
   \<and> apply_target counter_heap (Ref 1) (Ref 0) (flat1 counter_heap []) = Some (0, Ref 0, [])
   \<and> invoke next_fns counter_heap (Ref 0) (PKey (KStr ''next'')) []
        = next_fns 0 (Ref 0) [] counter_heap
   \<and> resolvedKeys flat_heap (Ref 0) (PKey (KStr ''a.b'')) = Inr [KStr ''a.b'']
   \<and> get flat_heap (Ref 0) (butlast [KStr ''a.b'']) (Ref 0) = Ref 0
   \<and> get_key flat_heap (Ref 0) (normalizeLastKey [KStr ''a.b'']) Undefined = Inr (Num 1)
   \<and> \<not> is_nullish (Num 1)
   \<and> apply_target flat_heap (Num 1) (Ref 0) (flat1 flat_heap []) = None
   \<and> invoke next_fns flat_heap (Ref 0) (PKey (KStr ''a.b'')) [] = (Inl TypeError, flat_heap)
   \<and> resolvedKeys null_heap (Ref 0) (PSeq [KStr ''a'', KStr ''b'']) = Inr [KStr ''a'', KStr ''b'']
   \<and> get null_heap (Ref 0) (butlast [KStr ''a'', KStr ''b'']) (Ref 0) = Null
   \<and> invoke next_fns null_heap (Ref 0) (PSeq [KStr ''a'', KStr ''b'']) [] = (Inr Undefined, null_heap)
   \<and> resolvedKeys add_heap (Ref 0) (PSeq [KStr ''a'', KStr ''c'']) = Inr [KStr ''a'', KStr ''c'']
   \<and> get add_heap (Ref 0) (butlast [KStr ''a'', KStr ''c'']) (Ref 0) = Ref 1
   \<and> \<not> is_nullish (Ref 1)
   \<and> get_key add_heap (Ref 1) (normalizeLastKey [KStr ''a'', KStr ''c'']) Undefined = Inr Undefined
   \<and> is_nullish Undefined
   \<and> invoke next_fns add_heap (Ref 0) (PSeq [KStr ''a'', KStr ''c'']) [] = (Inr Undefined, add_heap)
   \<and> has_st add_heap (Ref 0) (PKey (KStr ''a.b'')) = (Inr True, add_heap)"
proof -
  have pure: "\<forall>f this passed s. snd (add_fns f this passed s) = s"
  proof (intro allI)
    fix f this passed s
    show "snd (add_fns f this passed s) = s"
      unfolding add_fns_def by (cases "(this, passed, s)" rule: add_fn.cases) simp_all
  qed
  have nn: "is_nullish Null" "\<not> is_nullish (Ref 0)" "\<not> is_nullish (Num 1)"
    "\<not> is_nullish (Ref 1)" "is_nullish Undefined"
    by (simp_all add: is_nullish_def)
  note on_add = invoke_store_frame
    [where fns = add_fns and h = add_heap and object = "Ref 0" and p = "PKey (KStr ''a.b'')"
       and args = "[Ref 3]" and target = "Ref 0" and q = "PKey (KStr ''a.b'')"]
  from on_add pure
  have same: "snd (invoke add_fns add_heap (Ref 0) (PKey (KStr ''a.b'')) [Ref 3]) = add_heap"
    and again: "invoke add_fns (snd (invoke add_fns add_heap (Ref 0) (PKey (KStr ''a.b'')) [Ref 3]))
        (Ref 0) (PKey (KStr ''a.b'')) [Ref 3]
      = invoke add_fns add_heap (Ref 0) (PKey (KStr ''a.b'')) [Ref 3]"
    by blast+
  from on_add have "has_st add_heap (Ref 0) (PKey (KStr ''a.b''))
      = (has add_heap (Ref 0) (PKey (KStr ''a.b'')), add_heap)"
    by blast
  then have st: "has_st add_heap (Ref 0) (PKey (KStr ''a.b'')) = (Inr True, add_heap)"
    by (simp add: has_def toPath_defs heap_defs add_heap_def read_defs)
  note on_null = invoke_store_frame
    [where fns = next_fns and h = counter_heap and object = Null and p = "PKey (KStr ''next'')"
       and args = "[]"]
  from on_null nn
  have null: "invoke next_fns counter_heap Null (PKey (KStr ''next'')) [] = (Inr Undefined, counter_heap)"
    by blast
  have rk: "resolvedKeys counter_heap (Ref 0) (PKey (KStr ''next'')) = Inr [KStr ''next'']"
    by (simp add: own_of_object_def heap_defs counter_heap_def read_defs)
  have rp: "get counter_heap (Ref 0) (butlast [KStr ''next'']) (Ref 0) = Ref 0"
    by (simp add: get_def)
  have rm: "get_key counter_heap (Ref 0) (normalizeLastKey [KStr ''next'']) Undefined = Inr (Ref 1)"
    by (simp add: get_key_def normalizeLastKey_def last_elem_def heap_defs counter_heap_def read_defs)
  have rt: "apply_target counter_heap (Ref 1) (Ref 0) (flat1 counter_heap []) = Some (0, Ref 0, [])"
    by (simp add: apply_target_def flat1_def heap_defs counter_heap_def)
  note on_counter = invoke_store_frame
    [where fns = next_fns and h = counter_heap and object = "Ref 0" and p = "PKey (KStr ''next'')"
       and args = "[]" and keys = "[KStr ''next'']" and parent = "Ref 0" and func = "Ref 1"
       and f = 0 and this = "Ref 0" and passed = "[]"]
  from on_counter nn rk rp rm rt
  have called: "invoke next_fns counter_heap (Ref 0) (PKey (KStr ''next'')) []
        = next_fns 0 (Ref 0) [] counter_heap"
    by blast
  have fk: "resolvedKeys flat_heap (Ref 0) (PKey (KStr ''a.b'')) = Inr [KStr ''a.b'']"
    by (simp add: own_of_object_def heap_defs flat_heap_def read_defs)
  have fp: "get flat_heap (Ref 0) (butlast [KStr ''a.b'']) (Ref 0) = Ref 0"
    by (simp add: get_def)
  have fm: "get_key flat_heap (Ref 0) (normalizeLastKey [KStr ''a.b'']) Undefined = Inr (Num 1)"
    by (simp add: get_key_def normalizeLastKey_def last_elem_def heap_defs flat_heap_def read_defs)
  have ft: "apply_target flat_heap (Num 1) (Ref 0) (flat1 flat_heap []) = None"
    by (simp add: apply_target_def)
  note on_flat = invoke_store_frame
    [where fns = next_fns and h = flat_heap and object = "Ref 0" and p = "PKey (KStr ''a.b'')"
       and args = "[]" and keys = "[KStr ''a.b'']" and parent = "Ref 0" and func = "Num 1"]
  from on_flat nn fk fp fm ft
  have raised: "invoke next_fns flat_heap (Ref 0) (PKey (KStr ''a.b'')) [] = (Inl TypeError, flat_heap)"
    by blast
  have nk: "resolvedKeys null_heap (Ref 0) (PSeq [KStr ''a'', KStr ''b'']) = Inr [KStr ''a'', KStr ''b'']"
    by simp
  have np: "get null_heap (Ref 0) (butlast [KStr ''a'', KStr ''b'']) (Ref 0) = Null"
    by (simp add: get_def heap_defs null_heap_def read_defs)
  note on_parent = invoke_store_frame
    [where fns = next_fns and h = null_heap and object = "Ref 0"
       and p = "PSeq [KStr ''a'', KStr ''b'']" and args = "[]"
       and keys = "[KStr ''a'', KStr ''b'']" and parent = Null]
  from on_parent nn nk np
  have no_parent: "invoke next_fns null_heap (Ref 0) (PSeq [KStr ''a'', KStr ''b'']) []
      = (Inr Undefined, null_heap)"
    by blast
  have ak: "resolvedKeys add_heap (Ref 0) (PSeq [KStr ''a'', KStr ''c'']) = Inr [KStr ''a'', KStr ''c'']"
    by simp
  have ap: "get add_heap (Ref 0) (butlast [KStr ''a'', KStr ''c'']) (Ref 0) = Ref 1"
    by (simp add: get_def heap_defs add_heap_def read_defs)
  have am: "get_key add_heap (Ref 1) (normalizeLastKey [KStr ''a'', KStr ''c'']) Undefined = Inr Undefined"
    by (simp add: get_key_def normalizeLastKey_def last_elem_def isDeepKey_def
        heap_defs add_heap_def read_defs)
  note on_member = invoke_store_frame
    [where fns = next_fns and h = add_heap and object = "Ref 0"
       and p = "PSeq [KStr ''a'', KStr ''c'']" and args = "[]"
       and keys = "[KStr ''a'', KStr ''c'']" and parent = "Ref 1" and func = Undefined]
  from on_member nn ak ap am
  have no_member: "invoke next_fns add_heap (Ref 0) (PSeq [KStr ''a'', KStr ''c'']) []
      = (Inr Undefined, add_heap)"
    by blast
  from pure same again nn null rk rp rm rt called fk fp fm ft raised nk np no_parent
    ak ap am no_member st
  show ?thesis by blast
qed

text \<open>
  C9 as stated fails for \<open>invoke\<close> on a method that writes to its receiver: on
  \<open>{n: 0, next() { return this.n++ }}\<close> the call \<open>invoke(o, 'next')\<close> returns 0 and
  leaves \<open>n\<close> at 1, and the same call on the store it left returns 1.
\<close>

theorem invoke_mutates_counterexample:
  "fst (invoke next_fns counter_heap (Ref 0) (PKey (KStr ''next'')) []) = Inr (Num 0)
   \<and> lookup (counter_heap 0) (PName ''n'') = Num 0
   \<and> lookup (snd (invoke next_fns counter_heap (Ref 0) (PKey (KStr ''next'')) []) 0) (PName ''n'') = Num 1
   \<and> fst (invoke next_fns (snd (invoke next_fns counter_heap (Ref 0) (PKey (KStr ''next'')) []))
            (Ref 0) (PKey (KStr ''next'')) []) = Inr (Num 1)"
proof -
  have first: "invoke next_fns counter_heap (Ref 0) (PKey (KStr ''next'')) []
      = (Inr (Num 0), counter_heap(0 := \<lparr>kind = Plain, props = [PName ''n'' \<mapsto> Num 1, PName ''next'' \<mapsto> Ref 1]\<rparr>))"
    by (simp add: invoke_defs next_fns_def heap_defs counter_heap_def read_defs fun_upd_twist)
  show ?thesis
    unfolding first by (simp add: invoke_defs next_fns_def heap_defs counter_heap_def read_defs)
qed

end
